theory Spec2Isabelle
  imports Complex_Main
begin

section \<open>Go values used by main.go\<close>

text \<open>
  A Go string is a sequence of bytes; \<open>len\<close>, indexing and slicing count bytes. It is
  modelled as \<^typ>\<open>string\<close>, a list of 8-bit characters, so a code point beyond ASCII is
  the several bytes of its UTF-8 encoding.

  A run-time panic is a value: the helper functions return \<open>panic + 'a\<close>, \<open>Inl\<close> being the
  panic. A flow returns \<open>panic + error + 'a\<close>: \<open>Inl p\<close> when it panics, \<open>Inr (Inl e)\<close> for
  Go's \<open>return nil, e\<close> and \<open>Inr (Inr v)\<close> for \<open>return v, nil\<close>.
\<close>

datatype panic = MakesliceLenOutOfRange | SliceBoundsOutOfRange | IndexOutOfRange

text \<open>
  An \<open>error\<close> is either an error made elsewhere, known by its message, or the value of
  \<open>fmt.Errorf(prefix + "%w", err)\<close>, which keeps the formatted message and the error it
  wraps.
\<close>

datatype error = ErrorString string | WrapError string error

fun Error :: "error \<Rightarrow> string" where
  "Error (ErrorString msg) = msg"
| "Error (WrapError msg err) = msg"

fun Unwrap :: "error \<Rightarrow> error option" where
  "Unwrap (ErrorString msg) = None"
| "Unwrap (WrapError msg err) = Some err"

definition Errorf_w :: "string \<Rightarrow> error \<Rightarrow> error" where
  \<comment> \<open>\<open>fmt.Errorf(prefix + "%w", err)\<close>\<close>
  "Errorf_w prefix err = WrapError (prefix @ Error err) err"

text \<open>
  A \<open>float64\<close> is a finite value, an infinity or a NaN. A finite value is given by the real
  number it denotes; the program only compares readings with the constants 0, 70, 180 and
  250, which are floats, and a comparison of floats is exact. Every comparison with a NaN
  is false.
\<close>

datatype float64 = Finite real | PosInf | NegInf | NaN

fun f64_less :: "float64 \<Rightarrow> float64 \<Rightarrow> bool" where
  "f64_less NaN y = False"
| "f64_less x NaN = False"
| "f64_less (Finite a) (Finite b) = (a < b)"
| "f64_less (Finite a) PosInf = True"
| "f64_less (Finite a) NegInf = False"
| "f64_less PosInf y = False"
| "f64_less NegInf (Finite b) = True"
| "f64_less NegInf PosInf = True"
| "f64_less NegInf NegInf = False"

definition f64_greater :: "float64 \<Rightarrow> float64 \<Rightarrow> bool" where
  "f64_greater x y = f64_less y x"

section \<open>The standard library functions main.go calls\<close>

text \<open>
  The functions of package \<open>strings\<close> that work on bytes are written out. Those that
  decode UTF-8 and consult the Unicode tables do so only on their slow path, which a
  string with a byte of 0x80 or more takes; the slow paths, and the rendering of a float
  by \<open>fmt\<close>, are the fields of the record \<open>stdlib\<close>, about which nothing is assumed.
\<close>

record stdlib =
  MapToUpper :: "string \<Rightarrow> string"  \<comment> \<open>\<open>strings.Map(unicode.ToUpper, s)\<close>\<close>
  MapToLower :: "string \<Rightarrow> string"  \<comment> \<open>\<open>strings.Map(unicode.ToLower, s)\<close>\<close>
  TrimFuncIsSpace :: "string \<Rightarrow> string"  \<comment> \<open>\<open>strings.TrimFunc(s, unicode.IsSpace)\<close>\<close>
  TrimRightFuncIsSpace :: "string \<Rightarrow> string"  \<comment> \<open>\<open>strings.TrimRightFunc(s, unicode.IsSpace)\<close>\<close>
  FormatFloat :: "nat \<Rightarrow> float64 \<Rightarrow> string"  \<comment> \<open>the verb \<open>%.Nf\<close> of \<open>fmt\<close>, by precision\<close>

definition byte :: "char \<Rightarrow> nat" where
  "byte c = of_char c"

definition isASCII :: "string \<Rightarrow> bool" where
  \<comment> \<open>no byte is \<open>utf8.RuneSelf\<close> (0x80) or more\<close>
  "isASCII s = list_all (\<lambda>c. byte c < 0x80) s"

definition upper_byte :: "char \<Rightarrow> char" where
  \<comment> \<open>\<open>if 'a' <= c && c <= 'z' { c -= 'a' - 'A' }\<close>\<close>
  "upper_byte c = (if 97 \<le> byte c \<and> byte c \<le> 122 then char_of (byte c - 32) else c)"

definition lower_byte :: "char \<Rightarrow> char" where
  \<comment> \<open>\<open>if 'A' <= c && c <= 'Z' { c += 'a' - 'A' }\<close>\<close>
  "lower_byte c = (if 65 \<le> byte c \<and> byte c \<le> 90 then char_of (byte c + 32) else c)"

definition ToUpper :: "stdlib \<Rightarrow> string \<Rightarrow> string" where
  "ToUpper L s = (if isASCII s then map upper_byte s else MapToUpper L s)"

definition ToLower :: "stdlib \<Rightarrow> string \<Rightarrow> string" where
  "ToLower L s = (if isASCII s then map lower_byte s else MapToLower L s)"

fun HasPrefix :: "string \<Rightarrow> string \<Rightarrow> bool" where
  "HasPrefix s [] = True"
| "HasPrefix [] (p # ps) = False"
| "HasPrefix (c # cs) (p # ps) = (c = p \<and> HasPrefix cs ps)"

text \<open>
  \<open>strings.Index(s, substr)\<close> is the byte offset of the first occurrence of \<open>substr\<close> in
  \<open>s\<close>, or -1. \<open>index_nat\<close> scans for it from the left.
\<close>

fun index_nat :: "string \<Rightarrow> string \<Rightarrow> nat option" where
  "index_nat [] sub = (if sub = [] then Some 0 else None)"
| "index_nat (c # cs) sub =
     (if HasPrefix (c # cs) sub then Some 0 else map_option Suc (index_nat cs sub))"

definition Index :: "string \<Rightarrow> string \<Rightarrow> int" where
  "Index s sub = (case index_nat s sub of None \<Rightarrow> - 1 | Some i \<Rightarrow> int i)"

definition Contains :: "string \<Rightarrow> string \<Rightarrow> bool" where
  "Contains s sub = (0 \<le> Index s sub)"

text \<open>
  \<open>strings.Split(s, sep)\<close> for a separator that is not empty, as in the program's one
  call: cut at the first occurrence of the separator and go on after it. (For the empty
  separator the library splits after each UTF-8 sequence; that case is not written out
  here and gives the whole string.)
\<close>

function Split :: "string \<Rightarrow> string \<Rightarrow> string list" where
  "Split s sep =
     (if sep = [] then [s]
      else case index_nat s sep of
             None \<Rightarrow> [s]
           | Some m \<Rightarrow> take m s # Split (drop (m + length sep) s) sep)"
  by pat_completeness auto
termination
proof (relation "measure (\<lambda>(s, sep). length s)")
  show "wf (measure (\<lambda>(s, sep). length s))"
    by simp
next
  fix s sep :: string and m :: nat
  assume sep: "sep \<noteq> []" and found: "index_nat s sep = Some m"
  from sep found have "s \<noteq> []"
    by (cases s) auto
  with sep show "((drop (m + length sep) s, sep), (s, sep)) \<in> measure (\<lambda>(s, sep). length s)"
    by (cases s; cases sep) auto
qed

text \<open>
  \<open>strings.Join(elems, sep)\<close>. The program does not call it; it states below what
  \<open>Split\<close> returns.
\<close>

fun Join :: "string list \<Rightarrow> string \<Rightarrow> string" where
  "Join [] sep = []"
| "Join [x] sep = x"
| "Join (x # y # ys) sep = x @ sep @ Join (y # ys) sep"

text \<open>
  \<open>strings.Trim(s, cutset)\<close> for a cutset of ASCII characters, as in the program's one
  call: bytes of the cutset are removed from the right end, then from the left end.
\<close>

definition Trim :: "string \<Rightarrow> string \<Rightarrow> string" where
  "Trim s cutset =
     (if s = [] \<or> cutset = [] then s
      else dropWhile (\<lambda>c. c \<in> set cutset) (rev (dropWhile (\<lambda>c. c \<in> set cutset) (rev s))))"

definition asciiSpace :: "char \<Rightarrow> bool" where
  \<comment> \<open>the table \<open>asciiSpace\<close>: tab, newline, vertical tab, form feed, carriage return, space\<close>
  "asciiSpace c = (byte c \<in> {9, 10, 11, 12, 13, 32})"

text \<open>
  \<open>strings.TrimSpace\<close>: skip ASCII white space from the left; at a byte of 0x80 or more
  hand the rest to \<open>TrimFunc\<close>. Otherwise skip ASCII white space from the right; at a byte
  of 0x80 or more hand what is left to \<open>TrimRightFunc\<close>.
\<close>

definition TrimSpace :: "stdlib \<Rightarrow> string \<Rightarrow> string" where
  "TrimSpace L s =
     (case dropWhile asciiSpace s of
        [] \<Rightarrow> []
      | c # cs \<Rightarrow>
          if 0x80 \<le> byte c then TrimFuncIsSpace L (c # cs)
          else (case dropWhile asciiSpace (rev (c # cs)) of
                  [] \<Rightarrow> []
                | d # ds \<Rightarrow>
                    if 0x80 \<le> byte d then TrimRightFuncIsSpace L (rev (d # ds))
                    else rev (d # ds)))"

text \<open>Slice expressions \<open>s[lo:]\<close> and \<open>s[:hi]\<close>, which panic outside \<open>0 .. len(s)\<close>.\<close>

definition slice_from :: "string \<Rightarrow> int \<Rightarrow> panic + string" where
  "slice_from s lo =
     (if lo < 0 \<or> int (length s) < lo then Inl SliceBoundsOutOfRange else Inr (drop (nat lo) s))"

definition slice_to :: "string \<Rightarrow> int \<Rightarrow> panic + string" where
  "slice_to s hi =
     (if hi < 0 \<or> int (length s) < hi then Inl SliceBoundsOutOfRange else Inr (take (nat hi) s))"

text \<open>An index expression \<open>xs[i]\<close> with a constant index, which panics beyond the length.\<close>

definition at_index :: "'a list \<Rightarrow> nat \<Rightarrow> panic + 'a" where
  "at_index xs i = (if i < length xs then Inr (xs ! i) else Inl IndexOutOfRange)"

text \<open>
  \<open>make([]string, n)\<close>: \<open>n\<close> empty strings. The runtime's \<open>makeslice\<close> panics with
  \<open>len out of range\<close> when \<open>n\<close> is negative or when the size of the slice, \<open>n\<close> times the
  16 bytes of a string, is more than \<open>maxAlloc\<close>, which is \<open>2^48\<close> bytes on linux/amd64, the
  platform the program is built for; so the largest length it accepts is \<open>2^44\<close>. (Running
  out of memory below that limit is a fatal error of the runtime that depends on the
  machine, and is not part of the model.)
\<close>

definition maxAlloc :: int where
  "maxAlloc = 2 ^ 48"

definition make_strings :: "int \<Rightarrow> panic + string list" where
  "make_strings n =
     (if n < 0 \<or> maxAlloc < 16 * n then Inl MakesliceLenOutOfRange
      else Inr (replicate (nat n) []))"

text \<open>The verb \<open>%d\<close> of \<open>fmt\<close> for an \<open>int\<close>.\<close>

fun digits :: "nat \<Rightarrow> string" where
  "digits n = (if n < 10 then [char_of (48 + n)] else digits (n div 10) @ [char_of (48 + n mod 10)])"

definition FormatInt :: "int \<Rightarrow> string" where
  "FormatInt i = (if i < 0 then CHR ''-'' # digits (nat (- i)) else digits (nat i))"

section \<open>The request and response structures\<close>

text \<open>
  The structures of main.go, field by field. \<open>TimeAvailable\<close> is a Go \<open>int\<close>; the
  program does no arithmetic on it and only prints it, so it is an \<^typ>\<open>int\<close> here.
\<close>

record BloodSugarInput =
  Reading :: float64
  MealTiming :: string
  MealType :: string

record BloodSugarOutput =
  Status :: string
  Interpretation :: string
  Recommendation :: string

record MealPlanInput =
  DietType :: string
  Allergies :: string
  CalorieLimit :: float64

record MealPlanOutput =
  Breakfast :: string
  Lunch :: string
  Dinner :: string
  Snacks :: string

record SymptomInput =
  Symptoms :: string
  Duration :: string
  CurrentMeds :: string

record SymptomOutput =
  Urgency :: string
  Assessment :: string
  NextSteps :: string

record ExerciseInput =
  FitnessLevel :: string
  TimeAvailable :: int
  CurrentBG :: float64
  PreferredType :: string

record ExerciseOutput =
  SafetyCheck :: string
  Recommendation :: string
  Duration :: string
  Precautions :: string

record MedicationInput =
  MedicationName :: string
  Purpose :: string

record MedicationOutput =
  Information :: string
  Reminder :: string
  Disclaimer :: string

section \<open>The helper functions of main.go\<close>

subsection \<open>splitIntoSections\<close>

text \<open>
  The loop \<open>for i := 0; i < numSections && i < len(parts); i++\<close> with its assignment
  \<open>sections[i] = strings.TrimSpace(parts[i])\<close>. An assignment beyond the length of
  \<open>sections\<close> would panic.
\<close>

function fill_sections ::
  "stdlib \<Rightarrow> string list \<Rightarrow> int \<Rightarrow> nat \<Rightarrow> string list \<Rightarrow> panic + string list" where
  "fill_sections L parts numSections i sections =
     (if int i < numSections \<and> i < length parts then
        (if i < length sections
         then fill_sections L parts numSections (Suc i) (sections[i := TrimSpace L (parts ! i)])
         else Inl IndexOutOfRange)
      else Inr sections)"
  by pat_completeness auto
termination
  by (relation "measure (\<lambda>(L, parts, numSections, i, sections). length parts - i)") auto

definition splitIntoSections :: "stdlib \<Rightarrow> string \<Rightarrow> int \<Rightarrow> panic + string list" where
  "splitIntoSections L text numSections =
     (case make_strings numSections of
        Inl p \<Rightarrow> Inl p
      | Inr sections \<Rightarrow>
          if text = [] \<or> numSections \<le> 0 then Inr sections
          else fill_sections L (Split text ''\<newline>\<newline>'') numSections 0 sections)"

subsection \<open>extractSection and parseMealSections\<close>

definition no_information :: string where
  "no_information = ''No information available.''"

definition section_headers :: "string list" where
  "section_headers = [''BREAKFAST'', ''LUNCH'', ''DINNER'', ''SNACKS'']"

text \<open>
  The loop over the section headers: the queried header is skipped (\<open>continue\<close>), and at
  the first header of the list that occurs in the upper-cased content, the content is cut
  there and the loop ends (\<open>break\<close>).
\<close>

fun stop_at_next :: "stdlib \<Rightarrow> string \<Rightarrow> string list \<Rightarrow> string \<Rightarrow> panic + string" where
  "stop_at_next L keywordUpper [] content = Inr content"
| "stop_at_next L keywordUpper (next # rest) content =
     (if next = keywordUpper then stop_at_next L keywordUpper rest content
      else (let idx = Index (ToUpper L content) next
            in if idx \<noteq> - 1 then slice_to content idx
               else stop_at_next L keywordUpper rest content))"

definition extractSection :: "stdlib \<Rightarrow> string \<Rightarrow> string \<Rightarrow> panic + string" where
  "extractSection L text keyword =
     (if text = [] then Inr no_information
      else
        (let textUpper = ToUpper L text;
             keywordUpper = ToUpper L keyword;
             start = Index textUpper keywordUpper
         in if start = - 1 then Inr no_information
            else
              (case slice_from text (start + int (length keywordUpper)) of
                 Inl p \<Rightarrow> Inl p
               | Inr content \<Rightarrow>
                   (case stop_at_next L keywordUpper section_headers content of
                      Inl p \<Rightarrow> Inl p
                    | Inr content' \<Rightarrow>
                        (let clean = TrimSpace L (Trim content' '':-'')
                         in if clean = [] then Inr no_information else Inr clean)))))"

text \<open>
  The map literal of \<open>parseMealSections\<close>; its four values are evaluated in the order
  they are written, and a panic in one of them ends the call.
\<close>

definition parseMealSections :: "stdlib \<Rightarrow> string \<Rightarrow> panic + (string \<rightharpoonup> string)" where
  "parseMealSections L text =
     (case extractSection L text ''BREAKFAST'' of
        Inl p \<Rightarrow> Inl p
      | Inr b \<Rightarrow>
     (case extractSection L text ''LUNCH'' of
        Inl p \<Rightarrow> Inl p
      | Inr l \<Rightarrow>
     (case extractSection L text ''DINNER'' of
        Inl p \<Rightarrow> Inl p
      | Inr d \<Rightarrow>
     (case extractSection L text ''SNACKS'' of
        Inl p \<Rightarrow> Inl p
      | Inr s \<Rightarrow>
          Inr [''breakfast'' \<mapsto> b, ''lunch'' \<mapsto> l, ''dinner'' \<mapsto> d, ''snacks'' \<mapsto> s]))))"

text \<open>Reading a map of strings at a key that may be missing gives the empty string.\<close>

definition map_get :: "(string \<rightharpoonup> string) \<Rightarrow> string \<Rightarrow> string" where
  "map_get m k = (case m k of None \<Rightarrow> [] | Some v \<Rightarrow> v)"

subsection \<open>containsKeywords\<close>

fun keywords_loop :: "stdlib \<Rightarrow> string \<Rightarrow> string list \<Rightarrow> bool" where
  "keywords_loop L textLower [] = False"
| "keywords_loop L textLower (keyword # rest) =
     (if keyword = [] then keywords_loop L textLower rest
      else if Contains textLower (ToLower L keyword) then True
      else keywords_loop L textLower rest)"

definition containsKeywords :: "stdlib \<Rightarrow> string \<Rightarrow> string list \<Rightarrow> bool" where
  "containsKeywords L text keywords =
     (if text = [] \<or> length keywords = 0 then False
      else keywords_loop L (ToLower L text) keywords)"

section \<open>The flows\<close>

text \<open>
  \<open>genkit.Generate\<close> is the one call that leaves the program. The backend is a function
  from its state and the prompt to the text it returns, or an error, and its next state;
  a flow takes the state before its call and returns the state after it, so that the
  number of calls shows in the result.
\<close>

type_synonym 'w backend = "'w \<Rightarrow> string \<Rightarrow> (error + string) \<times> 'w"

subsection \<open>Flow 1: bloodSugarInterpreter\<close>

definition bloodSugarPrompt :: "stdlib \<Rightarrow> BloodSugarInput \<Rightarrow> string" where
  "bloodSugarPrompt L input =
     ''You are a diabetes care advisor. Analyze this blood sugar reading:\<newline>''
     @ [CHR 0x09, CHR 0x09] @ ''\<newline>Reading: '' @ FormatFloat L 1 (Reading input)
     @ '' mg/dL\<newline>Timing: '' @ MealTiming input
     @ ''\<newline>Meal: '' @ MealType input
     @ ''\<newline>\<newline>Provide:\<newline>1. Status (normal/high/low/critical)\<newline>''
     @ ''2. Clear interpretation in simple terms\<newline>''
     @ ''3. Immediate actionable recommendations\<newline>\<newline>Guidelines:\<newline>''
     @ ''- Fasting: 70-100 normal, 100-126 pre-diabetes, >126 diabetes concern\<newline>''
     @ ''- Before meal: 70-130 normal\<newline>- 2 hours after meal: <180 normal\<newline>''
     @ ''- <70 is low (hypoglycemia)\<newline>- >250 requires immediate attention\<newline>\<newline>''
     @ ''Be supportive and clear.''"

definition bloodSugarStatus :: "float64 \<Rightarrow> string" where
  \<comment> \<open>lines 154 to 161: the status, from the reading alone\<close>
  "bloodSugarStatus reading =
     (if f64_less reading (Finite 70) then ''low''
      else if f64_greater reading (Finite 250) then ''critical''
      else if f64_greater reading (Finite 180) then ''high''
      else ''normal'')"

definition bloodSugarFlow ::
  "stdlib \<Rightarrow> 'w backend \<Rightarrow> 'w \<Rightarrow> BloodSugarInput \<Rightarrow> (panic + error + BloodSugarOutput) \<times> 'w" where
  "bloodSugarFlow L generate w input =
     (case generate w (bloodSugarPrompt L input) of
        (Inl err, w') \<Rightarrow> (Inr (Inl (Errorf_w ''failed to interpret blood sugar: '' err)), w')
      | (Inr text, w') \<Rightarrow>
          (let status = bloodSugarStatus (Reading input)
           in case splitIntoSections L text 3 of
                Inl p \<Rightarrow> (Inl p, w')
              | Inr parts \<Rightarrow>
                  (case at_index parts 0 of
                     Inl p \<Rightarrow> (Inl p, w')
                   | Inr p0 \<Rightarrow>
                       (case at_index parts 1 of
                          Inl p \<Rightarrow> (Inl p, w')
                        | Inr p1 \<Rightarrow>
                            (Inr (Inr \<lparr>Status = status, Interpretation = p0,
                                       BloodSugarOutput.Recommendation = p1\<rparr>), w')))))"

subsection \<open>Flow 2: mealPlanner\<close>

definition mealPlanPrompt :: "stdlib \<Rightarrow> MealPlanInput \<Rightarrow> string" where
  "mealPlanPrompt L input =
     (let calorieInfo =
            (if f64_greater (CalorieLimit input) (Finite 0)
             then ''Target daily calories: '' @ FormatFloat L 0 (CalorieLimit input)
             else [])
      in ''Create a diabetes-friendly meal plan:\<newline>\<newline>Diet Type: '' @ DietType input
         @ ''\<newline>Allergies/Restrictions: '' @ Allergies input
         @ ''\<newline>'' @ calorieInfo
         @ ''\<newline>\<newline>For each meal, provide:\<newline>- Specific food items\<newline>''
         @ ''- Approximate portion sizes\<newline>- Why it's good for blood sugar control\<newline>''
         @ ''\<newline>Focus on:\<newline>- Low glycemic index foods\<newline>''
         @ ''- Balanced macros (protein, healthy fats, complex carbs)\<newline>''
         @ ''- High fiber content\<newline>- Foods that prevent blood sugar spikes\<newline>\<newline>''
         @ ''Format:\<newline>BREAKFAST: [meal details]\<newline>LUNCH: [meal details]\<newline>''
         @ ''DINNER: [meal details]\<newline>SNACKS: [snack options]'')"

definition mealPlanFlow ::
  "stdlib \<Rightarrow> 'w backend \<Rightarrow> 'w \<Rightarrow> MealPlanInput \<Rightarrow> (panic + error + MealPlanOutput) \<times> 'w" where
  "mealPlanFlow L generate w input =
     (case generate w (mealPlanPrompt L input) of
        (Inl err, w') \<Rightarrow> (Inr (Inl (Errorf_w ''failed to generate meal plan: '' err)), w')
      | (Inr text, w') \<Rightarrow>
          (case parseMealSections L text of
             Inl p \<Rightarrow> (Inl p, w')
           | Inr sections \<Rightarrow>
               (Inr (Inr \<lparr>Breakfast = map_get sections ''breakfast'',
                          Lunch = map_get sections ''lunch'',
                          Dinner = map_get sections ''dinner'',
                          Snacks = map_get sections ''snacks''\<rparr>), w')))"

subsection \<open>Flow 3: symptomChecker\<close>

definition symptomPrompt :: "SymptomInput \<Rightarrow> string" where
  "symptomPrompt input =
     ''You are a diabetes health advisor. Assess these symptoms:\<newline>\<newline>Symptoms: ''
     @ Symptoms input
     @ ''\<newline>Duration: '' @ SymptomInput.Duration input
     @ ''\<newline>Current Medications: '' @ CurrentMeds input
     @ ''\<newline>\<newline>Determine:\<newline>1. URGENCY LEVEL: \<newline>''
     @ ''   - EMERGENCY (call 911): Severe symptoms like chest pain, loss of consciousness, ''
     @ ''extreme confusion\<newline>''
     @ ''   - URGENT (contact doctor today): Persistent high BG, signs of infection, ''
     @ ''concerning symptoms\<newline>''
     @ ''   - ROUTINE (monitor and schedule appointment): Mild symptoms\<newline>\<newline>''
     @ ''2. ASSESSMENT: What these symptoms might indicate\<newline>\<newline>''
     @ ''3. NEXT STEPS: Specific actions to take\<newline>\<newline>''
     @ ''Be clear about when to seek immediate medical help. ''
     @ ''Always err on the side of caution.''"

definition emergency_keywords :: "string list" where
  "emergency_keywords = [''emergency'', ''911'', ''immediate'', ''urgent care'']"

definition urgent_keywords :: "string list" where
  "urgent_keywords = [''urgent'', ''contact doctor'', ''today'']"

definition symptomUrgency :: "stdlib \<Rightarrow> string \<Rightarrow> string" where
  \<comment> \<open>lines 246 to 252: the urgency, from the text the backend returned\<close>
  "symptomUrgency L text =
     (if containsKeywords L text emergency_keywords then ''emergency''
      else if containsKeywords L text urgent_keywords then ''urgent''
      else ''routine'')"

definition symptomFlow ::
  "stdlib \<Rightarrow> 'w backend \<Rightarrow> 'w \<Rightarrow> SymptomInput \<Rightarrow> (panic + error + SymptomOutput) \<times> 'w" where
  "symptomFlow L generate w input =
     (case generate w (symptomPrompt input) of
        (Inl err, w') \<Rightarrow> (Inr (Inl (Errorf_w ''failed to check symptoms: '' err)), w')
      | (Inr text, w') \<Rightarrow>
          (let urgency = symptomUrgency L text
           in case splitIntoSections L text 3 of
                Inl p \<Rightarrow> (Inl p, w')
              | Inr parts \<Rightarrow>
                  (case at_index parts 0 of
                     Inl p \<Rightarrow> (Inl p, w')
                   | Inr p0 \<Rightarrow>
                       (case at_index parts 1 of
                          Inl p \<Rightarrow> (Inl p, w')
                        | Inr p1 \<Rightarrow>
                            (Inr (Inr \<lparr>Urgency = urgency, Assessment = p0,
                                       NextSteps = p1\<rparr>), w')))))"

subsection \<open>Flow 4: exerciseAdvisor\<close>

definition exercisePrompt :: "stdlib \<Rightarrow> ExerciseInput \<Rightarrow> string" where
  "exercisePrompt L input =
     (let bgInfo =
            (if f64_greater (CurrentBG input) (Finite 0)
             then ''Current Blood Glucose: '' @ FormatFloat L 1 (CurrentBG input) @ '' mg/dL''
             else [])
      in ''Create a diabetes-safe exercise plan:\<newline>\<newline>Fitness Level: ''
         @ FitnessLevel input
         @ ''\<newline>Time Available: '' @ FormatInt (TimeAvailable input)
         @ '' minutes\<newline>'' @ bgInfo
         @ ''\<newline>Preferred Exercise: '' @ PreferredType input
         @ ''\<newline>\<newline>Provide:\<newline>''
         @ ''1. SAFETY CHECK: Is it safe to exercise now based on BG? ''
         @ ''(BG 100-250 is generally safe, <100 eat snack first, >250 delay exercise)\<newline>''
         @ ''2. EXERCISE PLAN: Specific exercises with sets/reps or duration\<newline>''
         @ ''3. DURATION & INTENSITY: How to structure the workout\<newline>''
         @ ''4. PRECAUTIONS: Important safety tips\<newline>\<newline>Remember:\<newline>''
         @ ''- Exercise lowers blood sugar\<newline>- Stay hydrated\<newline>''
         @ ''- Have fast-acting carbs nearby\<newline>- Stop if feeling dizzy or unwell'')"

definition exerciseFlow ::
  "stdlib \<Rightarrow> 'w backend \<Rightarrow> 'w \<Rightarrow> ExerciseInput \<Rightarrow> (panic + error + ExerciseOutput) \<times> 'w" where
  "exerciseFlow L generate w input =
     (case generate w (exercisePrompt L input) of
        (Inl err, w') \<Rightarrow> (Inr (Inl (Errorf_w ''failed to generate exercise plan: '' err)), w')
      | (Inr text, w') \<Rightarrow>
          (case splitIntoSections L text 4 of
             Inl p \<Rightarrow> (Inl p, w')
           | Inr parts \<Rightarrow>
               (case at_index parts 0 of
                  Inl p \<Rightarrow> (Inl p, w')
                | Inr p0 \<Rightarrow>
                    (case at_index parts 1 of
                       Inl p \<Rightarrow> (Inl p, w')
                     | Inr p1 \<Rightarrow>
                         (case at_index parts 2 of
                            Inl p \<Rightarrow> (Inl p, w')
                          | Inr p2 \<Rightarrow>
                              (case at_index parts 3 of
                                 Inl p \<Rightarrow> (Inl p, w')
                               | Inr p3 \<Rightarrow>
                                   (Inr (Inr \<lparr>SafetyCheck = p0,
                                              ExerciseOutput.Recommendation = p1,
                                              ExerciseOutput.Duration = p2,
                                              Precautions = p3\<rparr>), w')))))))"

subsection \<open>Flow 5: medicationInfo\<close>

definition medicationPrompt :: "MedicationInput \<Rightarrow> string" where
  "medicationPrompt input =
     ''Provide general information about diabetes medication:\<newline>\<newline>Medication: ''
     @ MedicationName input
     @ ''\<newline>Question about: '' @ Purpose input
     @ ''\<newline>\<newline>Provide helpful general information, but:\<newline>''
     @ ''1. DO NOT prescribe or change dosages\<newline>''
     @ ''2. Emphasize consulting with healthcare provider\<newline>''
     @ ''3. Mention common considerations\<newline>''
     @ ''4. Include important safety information\<newline>\<newline>''
     @ ''Always include a clear disclaimer that this is educational information only.''"

definition medication_reminder :: string where
  "medication_reminder =
     ''Set reminders on your phone for medication times. ''
     @ ''Never skip doses without consulting your doctor.''"

definition medication_disclaimer :: string where
  \<comment> \<open>the first six bytes are the UTF-8 encoding of the warning sign, U+26A0 U+FE0F\<close>
  "medication_disclaimer =
     [CHR 0xE2, CHR 0x9A, CHR 0xA0, CHR 0xEF, CHR 0xB8, CHR 0x8F]
     @ '' IMPORTANT: This is educational information only. ''
     @ ''Always consult your healthcare provider before starting, stopping, or changing ''
     @ ''any medication. This AI advisor cannot replace professional medical advice.''"

definition medicationFlow ::
  "'w backend \<Rightarrow> 'w \<Rightarrow> MedicationInput \<Rightarrow> (panic + error + MedicationOutput) \<times> 'w" where
  "medicationFlow generate w input =
     (case generate w (medicationPrompt input) of
        (Inl err, w') \<Rightarrow> (Inr (Inl (Errorf_w ''failed to get medication info: '' err)), w')
      | (Inr text, w') \<Rightarrow>
          (let disclaimer = medication_disclaimer
           in (Inr (Inr \<lparr>Information = text, Reminder = medication_reminder,
                          Disclaimer = disclaimer\<rparr>), w')))"

section \<open>Example inputs\<close>

text \<open>
  The closed examples below run the program on ASCII text, where the library takes its
  fast paths; \<open>sample_stdlib\<close> fills the slow paths with the identity. The sample
  backends count their calls in their state.
\<close>

definition sample_stdlib :: stdlib where
  "sample_stdlib =
     \<lparr>MapToUpper = (\<lambda>s. s), MapToLower = (\<lambda>s. s), TrimFuncIsSpace = (\<lambda>s. s),
      TrimRightFuncIsSpace = (\<lambda>s. s), FormatFloat = (\<lambda>n x. ''0'')\<rparr>"

definition sample_backend :: "string \<Rightarrow> nat backend" where
  "sample_backend reply = (\<lambda>w prompt. (Inr reply, Suc w))"

definition failing_backend :: "nat backend" where
  "failing_backend = (\<lambda>w prompt. (Inl (ErrorString ''quota exceeded''), Suc w))"

definition meal_example :: string where
  "meal_example = ''BREAKFAST: oats\<newline>\<newline>LUNCH: salad\<newline>\<newline>DINNER: soup''"

definition bleeding_example :: string where
  "bleeding_example = ''BREAKFAST: oats LUNCH: salad DINNER: breakfast leftovers''"

text \<open>
  A reply that is not ASCII: the letter U+0250 (turned a, the bytes C9 90) before the
  header LUNCH. Its upper-case form in Unicode is U+2C6F (the bytes E2 B1 AF), one byte
  longer. \<open>turned_a_stdlib\<close> is an instance whose \<open>MapToUpper\<close> has this entry.
\<close>

definition turned_a_text :: string where
  "turned_a_text = [CHR 0xC9, CHR 0x90] @ ''LUNCH''"

definition turned_a_upper :: string where
  "turned_a_upper = [CHR 0xE2, CHR 0xB1, CHR 0xAF] @ ''LUNCH''"

definition turned_a_stdlib :: stdlib where
  "turned_a_stdlib =
     sample_stdlib\<lparr>MapToUpper := (\<lambda>s. if s = turned_a_text then turned_a_upper else s)\<rparr>"


section \<open>The stripping as the specification words it\<close>

text \<open>
  The specification speaks of the content being empty after stripping leading and
  surrounding colons, hyphens and white space. \<open>strip_as_claimed\<close> follows these words:
  every colon, hyphen and white-space character is removed from both ends, in whatever
  order they stand. The program does not call it; it is compared below with the
  program's own \<open>strings.TrimSpace(strings.Trim(content, ":-"))\<close>.
\<close>

definition strip_as_claimed :: "string \<Rightarrow> string" where
  "strip_as_claimed c =
     rev (dropWhile (\<lambda>x. x \<in> set '':-'' \<or> asciiSpace x)
       (rev (dropWhile (\<lambda>x. x \<in> set '':-'' \<or> asciiSpace x) c)))"

section \<open>Properties of the helper functions\<close>

declare fill_sections.simps [simp del] Split.simps [simp del] digits.simps [simp del]

subsection \<open>The byte tables\<close>

text \<open>
  What \<open>upper_byte\<close>, \<open>lower_byte\<close> and \<open>asciiSpace\<close> do to each of the 256 bytes, by
  evaluation: the 26 letters change case and every other byte stays; the ASCII white
  space is the six bytes 09 to 0D and 20.
\<close>

lemma lower_byte_alphabet:
  "map lower_byte ''ABCDEFGHIJKLMNOPQRSTUVWXYZ'' = ''abcdefghijklmnopqrstuvwxyz''"
  by code_simp

lemma lower_byte_other:
  "\<forall>c. c \<notin> set ''ABCDEFGHIJKLMNOPQRSTUVWXYZ'' \<longrightarrow> lower_byte c = c"
  by code_simp

lemma upper_byte_alphabet:
  "map upper_byte ''abcdefghijklmnopqrstuvwxyz'' = ''ABCDEFGHIJKLMNOPQRSTUVWXYZ''"
  by code_simp

lemma upper_byte_other:
  "\<forall>c. c \<notin> set ''abcdefghijklmnopqrstuvwxyz'' \<longrightarrow> upper_byte c = c"
  by code_simp

lemma asciiSpace_chars:
  "\<forall>c. asciiSpace c \<longleftrightarrow> c \<in> set [CHR 0x09, CHR 0x0A, CHR 0x0B, CHR 0x0C, CHR 0x0D, CHR 0x20]"
  by code_simp

subsection \<open>The positional splitter\<close>

text \<open>
  The loop of \<open>splitIntoSections\<close> never panics when \<open>sections\<close> has \<open>numSections\<close>
  slots: it overwrites the slots from \<open>i\<close> up to the number of parts and leaves the others.
\<close>

lemma fill_sections_result:
  assumes "length sections = nat n"
  shows "\<exists>xs. fill_sections L parts n i sections = Inr xs \<and> length xs = nat n \<and>
           (\<forall>j<nat n. xs ! j = (if i \<le> j \<and> j < length parts then TrimSpace L (parts ! j)
                                 else sections ! j))"
  using assms
proof (induction L parts n i sections rule: fill_sections.induct)
  case (1 L parts n i sections)
  show ?case
  proof (cases "int i < n \<and> i < length parts")
    case False
    with "1.prems" show ?thesis
      by (subst fill_sections.simps) auto
  next
    case True
    with "1.prems" have inr: "i < length sections"
      by linarith
    let ?s = "sections[i := TrimSpace L (parts ! i)]"
    from "1.prems" have len: "length ?s = nat n"
      by simp
    from "1.IH" [OF True inr len] obtain xs where
      xs: "fill_sections L parts n (Suc i) ?s = Inr xs" "length xs = nat n"
        "\<forall>j<nat n. xs ! j =
           (if Suc i \<le> j \<and> j < length parts then TrimSpace L (parts ! j) else ?s ! j)"
      by blast
    have "fill_sections L parts n i sections = Inr xs"
      using True inr xs(1) by (subst fill_sections.simps) simp
    moreover have "\<forall>j<nat n. xs ! j =
        (if i \<le> j \<and> j < length parts then TrimSpace L (parts ! j) else sections ! j)"
    proof (intro allI impI)
      fix j assume j: "j < nat n"
      show "xs ! j =
        (if i \<le> j \<and> j < length parts then TrimSpace L (parts ! j) else sections ! j)"
      proof (cases "j = i")
        case True
        with xs(3) j inr \<open>int i < n \<and> i < length parts\<close> show ?thesis by simp
      next
        case False
        with xs(3) j inr show ?thesis by (auto simp: nth_list_update)
      qed
    qed
    ultimately show ?thesis using xs(2) by blast
  qed
qed

lemma splitIntoSections_result:
  assumes "0 \<le> n" and "n \<le> 2 ^ 44"
  shows "\<exists>xs. splitIntoSections L s n = Inr xs \<and> length xs = nat n \<and>
           (\<forall>j<nat n. xs ! j = (if s \<noteq> [] \<and> j < length (Split s ''\<newline>\<newline>'')
                                 then TrimSpace L (Split s ''\<newline>\<newline>'' ! j) else []))"
proof (cases "s = [] \<or> n \<le> 0")
  case True
  with assms show ?thesis
    by (auto simp: splitIntoSections_def make_strings_def maxAlloc_def)
next
  case False
  have len: "length (replicate (nat n) ([]::string)) = nat n"
    by simp
  from fill_sections_result [OF len, of L "Split s ''\<newline>\<newline>''" 0]
  obtain xs where
    xs: "fill_sections L (Split s ''\<newline>\<newline>'') n 0 (replicate (nat n) []) = Inr xs"
      "length xs = nat n"
      "\<forall>j<nat n. xs ! j =
         (if 0 \<le> j \<and> j < length (Split s ''\<newline>\<newline>'')
          then TrimSpace L (Split s ''\<newline>\<newline>'' ! j) else replicate (nat n) [] ! j)"
    by blast
  from False assms xs(1) have "splitIntoSections L s n = Inr xs"
    by (simp add: splitIntoSections_def make_strings_def maxAlloc_def)
  with xs(2,3) False show ?thesis
    by auto
qed

lemma splitIntoSections_parts:
  assumes "0 \<le> n" and "n \<le> 2 ^ 44"
  obtains parts where "splitIntoSections L s n = Inr parts" and "length parts = nat n"
  using splitIntoSections_result [OF assms, of L s] by blast

lemma splitIntoSections_too_long:
  "2 ^ 44 < n \<Longrightarrow> splitIntoSections L s n = Inl MakesliceLenOutOfRange"
  by (simp add: splitIntoSections_def make_strings_def maxAlloc_def)

text \<open>
  The slice is made before the count is tested, so a negative count panics, and so does
  a count above \<open>2^44\<close>; the count 0 gives no slot.
\<close>

lemma splitIntoSections_negative:
  "n < 0 \<Longrightarrow> splitIntoSections L s n = Inl MakesliceLenOutOfRange"
  by (simp add: splitIntoSections_def make_strings_def)

lemma splitIntoSections_zero: "splitIntoSections L s 0 = Inr []"
  by (simp add: splitIntoSections_def make_strings_def maxAlloc_def)

subsection \<open>Searching for a substring\<close>

text \<open>
  \<open>Index\<close> returns the least offset at which the substring occurs, and -1 exactly when
  it occurs nowhere; an occurrence at offset \<open>j\<close> is \<open>HasPrefix (drop j s) sub\<close>.
\<close>

lemma HasPrefix_iff_take: "HasPrefix s p \<longleftrightarrow> take (length p) s = p"
  by (induction s p rule: HasPrefix.induct) auto

lemma HasPrefix_append: "HasPrefix s p \<longleftrightarrow> (\<exists>r. s = p @ r)"
proof
  assume "HasPrefix s p"
  then have "s = p @ drop (length p) s"
    by (metis HasPrefix_iff_take append_take_drop_id)
  then show "\<exists>r. s = p @ r" ..
next
  assume "\<exists>r. s = p @ r"
  then show "HasPrefix s p"
    by (auto simp: HasPrefix_iff_take)
qed

lemma HasPrefix_length: "HasPrefix s p \<Longrightarrow> length p \<le> length s"
  by (auto simp: HasPrefix_append)

lemma index_nat_Some:
  "index_nat s sub = Some i \<Longrightarrow>
     HasPrefix (drop i s) sub \<and> i + length sub \<le> length s \<and>
     (\<forall>j<i. \<not> HasPrefix (drop j s) sub)"
proof (induction s arbitrary: i)
  case Nil
  then show ?case by (auto split: if_splits)
next
  case (Cons c cs)
  show ?case
  proof (cases "HasPrefix (c # cs) sub")
    case True
    with Cons.prems have "i = 0" by simp
    with True show ?thesis
      using HasPrefix_length [OF True] by simp
  next
    case False
    with Cons.prems obtain k where k: "index_nat cs sub = Some k" "i = Suc k"
      by auto
    from Cons.IH [OF k(1)] have ih: "HasPrefix (drop k cs) sub" "k + length sub \<le> length cs"
      "\<forall>j<k. \<not> HasPrefix (drop j cs) sub"
      by auto
    have "\<forall>j<i. \<not> HasPrefix (drop j (c # cs)) sub"
    proof (intro allI impI)
      fix j assume "j < i"
      show "\<not> HasPrefix (drop j (c # cs)) sub"
      proof (cases j)
        case 0
        with False show ?thesis by simp
      next
        case (Suc j')
        with \<open>j < i\<close> k(2) ih(3) show ?thesis by simp
      qed
    qed
    with ih k(2) show ?thesis by simp
  qed
qed

lemma index_nat_None:
  "index_nat s sub = None \<Longrightarrow> \<not> HasPrefix (drop j s) sub"
proof (induction s arbitrary: j)
  case Nil
  then show ?case by (cases sub) (auto split: if_splits)
next
  case (Cons c cs)
  then have nohead: "\<not> HasPrefix (c # cs) sub" and tl: "index_nat cs sub = None"
    by (auto split: if_splits)
  show ?case
  proof (cases j)
    case 0
    with nohead show ?thesis by simp
  next
    case (Suc j')
    with Cons.IH [OF tl] show ?thesis by simp
  qed
qed

lemma index_nat_None_iff:
  "index_nat s sub = None \<longleftrightarrow> (\<forall>j. \<not> HasPrefix (drop j s) sub)"
proof
  assume "index_nat s sub = None"
  then show "\<forall>j. \<not> HasPrefix (drop j s) sub"
    by (simp add: index_nat_None)
next
  assume none: "\<forall>j. \<not> HasPrefix (drop j s) sub"
  show "index_nat s sub = None"
  proof (rule ccontr)
    assume "index_nat s sub \<noteq> None"
    then obtain i where "index_nat s sub = Some i" by auto
    from index_nat_Some [OF this] none show False by blast
  qed
qed

lemma Index_absent: "Index s sub = - 1 \<longleftrightarrow> (\<forall>j. \<not> HasPrefix (drop j s) sub)"
  by (auto simp: Index_def index_nat_None_iff [symmetric] split: option.splits)

lemma Index_found:
  assumes "Index s sub \<noteq> - 1"
  shows "0 \<le> Index s sub" and "Index s sub + int (length sub) \<le> int (length s)"
    and "HasPrefix (drop (nat (Index s sub)) s) sub"
    and "\<forall>j<nat (Index s sub). \<not> HasPrefix (drop j s) sub"
proof -
  from assms obtain i where i: "index_nat s sub = Some i" "Index s sub = int i"
    by (auto simp: Index_def split: option.splits)
  from index_nat_Some [OF i(1)] i(2)
  show "0 \<le> Index s sub" "Index s sub + int (length sub) \<le> int (length s)"
    "HasPrefix (drop (nat (Index s sub)) s) sub"
    "\<forall>j<nat (Index s sub). \<not> HasPrefix (drop j s) sub"
    by auto
qed

lemma Contains_iff: "Contains s sub \<longleftrightarrow> (\<exists>a b. s = a @ sub @ b)"
proof
  assume "Contains s sub"
  then have "Index s sub \<noteq> - 1"
    by (simp add: Contains_def)
  from Index_found(3) [OF this] obtain r where "drop (nat (Index s sub)) s = sub @ r"
    by (auto simp: HasPrefix_append)
  then have "s = take (nat (Index s sub)) s @ sub @ r"
    by (metis append_take_drop_id)
  then show "\<exists>a b. s = a @ sub @ b"
    by blast
next
  assume "\<exists>a b. s = a @ sub @ b"
  then obtain a b where s: "s = a @ sub @ b"
    by blast
  then have "HasPrefix (drop (length a) s) sub"
    by (simp add: HasPrefix_append)
  then have "Index s sub \<noteq> - 1"
    by (auto simp: Index_absent)
  from Index_found(1) [OF this] show "Contains s sub"
    by (simp add: Contains_def)
qed

subsection \<open>What Split and TrimSpace return\<close>

text \<open>
  Joining the chunks of \<open>Split\<close> with the separator gives the string back, and no chunk
  contains the separator. On an ASCII string \<open>TrimSpace\<close> removes the ASCII white space
  at both ends and nothing else.
\<close>

lemma Join_Cons: "ys \<noteq> [] \<Longrightarrow> Join (x # ys) sep = x @ sep @ Join ys sep"
  by (cases ys) auto

lemma Split_nonempty: "Split s sep \<noteq> []"
  by (subst Split.simps) (auto split: option.splits)

lemma Split_absent: "index_nat s sep = None \<Longrightarrow> Split s sep = [s]"
  by (subst Split.simps) simp

lemma Split_found:
  "sep \<noteq> [] \<Longrightarrow> index_nat s sep = Some m \<Longrightarrow>
     Split s sep = take m s # Split (drop (m + length sep) s) sep"
  by (subst Split.simps) simp

lemma Join_Split:
  assumes "sep \<noteq> []"
  shows "Join (Split s sep) sep = s"
  using assms
proof (induction s sep rule: Split.induct)
  case (1 s sep)
  show ?case
  proof (cases "index_nat s sep")
    case None
    then show ?thesis by (simp add: Split_absent)
  next
    case (Some m)
    from index_nat_Some [OF Some] obtain r where r: "drop m s = sep @ r"
      by (auto simp: HasPrefix_append)
    then have "drop (length sep) (drop m s) = r" by simp
    then have rest: "drop (m + length sep) s = r" by (simp add: add.commute)
    from "1.IH" [OF "1.prems" Some "1.prems"] rest
    have "Join (Split r sep) sep = r" by simp
    with Split_found [OF "1.prems" Some] rest
    have "Join (Split s sep) sep = take m s @ sep @ r"
      by (simp add: Join_Cons Split_nonempty)
    also have "\<dots> = take m s @ drop m s" using r by simp
    finally show ?thesis by simp
  qed
qed

lemma take_free_of_sep:
  assumes "sep \<noteq> []" and "index_nat s sep = Some m"
  shows "index_nat (take m s) sep = None"
proof -
  have "\<not> HasPrefix (drop j (take m s)) sep" for j
  proof
    assume occ: "HasPrefix (drop j (take m s)) sep"
    then obtain r where r: "drop j (take m s) = sep @ r"
      by (auto simp: HasPrefix_append)
    from HasPrefix_length [OF occ] assms(1) have "j < m"
      by (cases sep) auto
    from index_nat_Some [OF assms(2)] have "m \<le> length s"
      by simp
    have "drop j s = drop j (take m s @ drop m s)"
      by simp
    also have "\<dots> = drop j (take m s) @ drop m s"
      using \<open>j < m\<close> \<open>m \<le> length s\<close> by (simp del: append_take_drop_id)
    finally have "drop j s = drop j (take m s) @ drop m s" .
    with r have "HasPrefix (drop j s) sep"
      by (simp add: HasPrefix_append)
    with index_nat_Some [OF assms(2)] \<open>j < m\<close> show False
      by blast
  qed
  then show ?thesis
    by (simp add: index_nat_None_iff)
qed

lemma Split_chunks_free:
  assumes "sep \<noteq> []"
  shows "list_all (\<lambda>c. Index c sep = - 1) (Split s sep)"
  using assms
proof (induction s sep rule: Split.induct)
  case (1 s sep)
  show ?case
  proof (cases "index_nat s sep")
    case None
    then show ?thesis by (simp add: Split_absent Index_def)
  next
    case (Some m)
    from take_free_of_sep [OF "1.prems" Some] have "Index (take m s) sep = - 1"
      by (simp add: Index_def)
    with "1.IH" [OF "1.prems" Some "1.prems"] Split_found [OF "1.prems" Some]
    show ?thesis by simp
  qed
qed

lemma TrimSpace_ascii:
  assumes "isASCII s"
  shows "TrimSpace L s = rev (dropWhile asciiSpace (rev (dropWhile asciiSpace s)))"
proof (cases "dropWhile asciiSpace s")
  case Nil
  show ?thesis
    by (simp only: TrimSpace_def Nil list.case rev.simps(1) dropWhile.simps(1))
next
  case (Cons c cs)
  have "set (dropWhile asciiSpace s) \<subseteq> set s"
    by (simp add: set_dropWhileD subsetI)
  with assms Cons have asc: "\<forall>x\<in>set (c # cs). byte x < 0x80"
    by (auto simp: isASCII_def list_all_iff)
  then have c: "\<not> 0x80 \<le> byte c"
    by auto
  show ?thesis
  proof (cases "dropWhile asciiSpace (rev (c # cs))")
    case Nil
    show ?thesis
      by (simp only: TrimSpace_def Cons list.case c if_False Nil rev.simps(1))
  next
    case inner: (Cons d ds)
    have "set (dropWhile asciiSpace (rev (c # cs))) \<subseteq> set (rev (c # cs))"
      by (meson set_dropWhileD subsetI)
    with inner asc have "byte d < 0x80"
      by auto
    then have d: "\<not> 0x80 \<le> byte d"
      by auto
    show ?thesis
      by (simp only: TrimSpace_def Cons list.case c if_False inner d)
  qed
qed

subsection \<open>Trimming the colons and hyphens, then the white space\<close>

text \<open>
  \<open>Trim\<close> with the cutset \<open>":-"\<close> removes the colons and hyphens at both ends and stops at
  the first other byte, white space included. So the content is empty after \<open>Trim\<close> and
  \<open>TrimSpace\<close> exactly when it is colons and hyphens, then white space, then colons and
  hyphens.
\<close>

lemma both_ends_sandwich:
  assumes p: "list_all P p" and q: "list_all P q" and w: "list_all (\<lambda>x. \<not> P x) w"
  shows "dropWhile P (rev (dropWhile P (rev (p @ w @ q)))) = w"
proof (cases w rule: rev_cases)
  case Nil
  have "dropWhile P (rev q @ rev p) = []"
    using p q by (auto simp: list_all_iff)
  then have "dropWhile P (rev (dropWhile P (rev (p @ [] @ q)))) = []"
    by (simp only: rev_append append_Nil rev.simps(1) dropWhile.simps(1))
  with Nil show ?thesis
    by (simp only:)
next
  case (snoc w' y)
  with w have ny: "\<not> P y"
    by simp
  from snoc have "w \<noteq> []"
    by simp
  then obtain x w'' where front: "w = x # w''"
    unfolding neq_Nil_conv by blast
  with w have nx: "\<not> P x"
    by simp
  have "dropWhile P (rev q @ (rev w @ rev p)) = dropWhile P (rev w @ rev p)"
    using q by (intro dropWhile_append2) (simp add: list_all_iff)
  also have "\<dots> = rev w @ rev p"
    using snoc ny by simp
  finally have right: "dropWhile P (rev (p @ w @ q)) = rev (p @ w)"
    by simp
  have "dropWhile P (p @ w) = dropWhile P w"
    using p by (intro dropWhile_append2) (simp add: list_all_iff)
  with front nx have "dropWhile P (p @ w) = w"
    by simp
  with right show ?thesis
    by simp
qed

lemma both_ends_decompose:
  "\<exists>p q. c = p @ dropWhile P (rev (dropWhile P (rev c))) @ q \<and> list_all P p \<and> list_all P q"
proof -
  let ?r = "dropWhile P (rev c)"
  have "rev c = takeWhile P (rev c) @ ?r"
    by simp
  then have "rev (rev c) = rev (takeWhile P (rev c) @ ?r)"
    by (rule arg_cong)
  then have c: "c = rev ?r @ rev (takeWhile P (rev c))"
    by (simp only: rev_append rev_rev_ident)
  have r: "rev ?r = takeWhile P (rev ?r) @ dropWhile P (rev ?r)"
    by simp
  have "c = (takeWhile P (rev ?r) @ dropWhile P (rev ?r)) @ rev (takeWhile P (rev c))"
    using c by (simp only: takeWhile_dropWhile_id)
  then have "c = takeWhile P (rev ?r) @ dropWhile P (rev ?r) @ rev (takeWhile P (rev c))"
    by (simp only: append_assoc)
  moreover have "list_all P (takeWhile P (rev ?r))"
    unfolding list_all_iff by (meson set_takeWhileD)
  moreover have "list_all P (rev (takeWhile P (rev c)))"
    unfolding list_all_iff by (metis set_rev set_takeWhileD)
  ultimately show ?thesis
    by blast
qed

lemma Trim_cutset:
  "Trim c '':-'' =
     dropWhile (\<lambda>x. x \<in> set '':-'') (rev (dropWhile (\<lambda>x. x \<in> set '':-'') (rev c)))"
proof (cases "c = []")
  case True
  then show ?thesis
    by (simp only: Trim_def rev.simps(1) dropWhile.simps(1) simp_thms if_True)
next
  case False
  have "'':-'' \<noteq> []"
    by simp
  with False show ?thesis
    by (simp only: Trim_def simp_thms if_False)
qed

lemma asciiSpace_not_cut_all: "\<forall>x. asciiSpace x \<longrightarrow> x \<notin> set '':-''"
  by code_simp

lemma asciiSpace_not_cut: "list_all asciiSpace w \<Longrightarrow> list_all (\<lambda>x. \<not> x \<in> set '':-'') w"
  using asciiSpace_not_cut_all unfolding list_all_iff by blast

lemma Trim_sandwich:
  assumes p: "list_all (\<lambda>x. x \<in> set '':-'') p" and w: "list_all asciiSpace w"
    and q: "list_all (\<lambda>x. x \<in> set '':-'') q"
  shows "Trim (p @ w @ q) '':-'' = w"
  unfolding Trim_cutset using p q asciiSpace_not_cut [OF w] by (rule both_ends_sandwich)

lemma Trim_decompose:
  "\<exists>p q. c = p @ Trim c '':-'' @ q \<and> list_all (\<lambda>x. x \<in> set '':-'') p \<and>
         list_all (\<lambda>x. x \<in> set '':-'') q"
  unfolding Trim_cutset by (rule both_ends_decompose)

lemma TrimSpace_spaces: "list_all asciiSpace w \<Longrightarrow> TrimSpace L w = []"
proof -
  assume "list_all asciiSpace w"
  then have "dropWhile asciiSpace w = []"
    by (simp add: list_all_iff)
  then show ?thesis
    by (simp only: TrimSpace_def list.case)
qed

lemma isASCII_Trim: "isASCII c \<Longrightarrow> isASCII (Trim c '':-'')"
proof -
  assume a: "isASCII c"
  from Trim_decompose [of c] obtain p q where "c = p @ Trim c '':-'' @ q"
    by (elim exE conjE)
  then have "set c = set p \<union> set (Trim c '':-'') \<union> set q"
    by (metis set_append Un_assoc)
  then have "set (Trim c '':-'') \<subseteq> set c"
    by blast
  with a show ?thesis
    unfolding isASCII_def list_all_iff by blast
qed

lemma TrimSpace_empty_ascii:
  assumes "isASCII t" and "TrimSpace L t = []"
  shows "list_all asciiSpace t"
proof -
  from assms have "rev (dropWhile asciiSpace (rev (dropWhile asciiSpace t))) = []"
    by (simp only: TrimSpace_ascii)
  then have "dropWhile asciiSpace (rev (dropWhile asciiSpace t)) = []"
    by (simp only: rev_is_Nil_conv)
  then have all: "\<forall>x\<in>set (dropWhile asciiSpace t). asciiSpace x"
    by (simp only: dropWhile_eq_Nil_conv set_rev)
  have "dropWhile asciiSpace t = []"
  proof (rule ccontr)
    assume ne: "dropWhile asciiSpace t \<noteq> []"
    then have "\<not> asciiSpace (hd (dropWhile asciiSpace t))"
      by (rule hd_dropWhile)
    moreover from ne have "hd (dropWhile asciiSpace t) \<in> set (dropWhile asciiSpace t)"
      by (rule hd_in_set)
    ultimately show False
      using all by blast
  qed
  then show ?thesis
    by (simp only: dropWhile_eq_Nil_conv list_all_iff)
qed

lemma clean_empty_iff_ascii:
  assumes "isASCII c"
  shows "TrimSpace L (Trim c '':-'') = [] \<longleftrightarrow>
         (\<exists>p w q. c = p @ w @ q \<and> list_all (\<lambda>x. x \<in> set '':-'') p \<and> list_all asciiSpace w \<and>
                  list_all (\<lambda>x. x \<in> set '':-'') q)"
proof
  assume empty: "TrimSpace L (Trim c '':-'') = []"
  have w: "list_all asciiSpace (Trim c '':-'')"
    using isASCII_Trim [OF assms] empty by (rule TrimSpace_empty_ascii)
  from Trim_decompose [of c] obtain p q where
    pq: "c = p @ Trim c '':-'' @ q" "list_all (\<lambda>x. x \<in> set '':-'') p"
      "list_all (\<lambda>x. x \<in> set '':-'') q"
    by (elim exE conjE)
  show "\<exists>p w q. c = p @ w @ q \<and> list_all (\<lambda>x. x \<in> set '':-'') p \<and>
      list_all asciiSpace w \<and> list_all (\<lambda>x. x \<in> set '':-'') q"
    using pq w by (intro exI [of _ p] exI [of _ "Trim c '':-''"] exI [of _ q] conjI)
next
  assume "\<exists>p w q. c = p @ w @ q \<and> list_all (\<lambda>x. x \<in> set '':-'') p \<and> list_all asciiSpace w \<and>
      list_all (\<lambda>x. x \<in> set '':-'') q"
  then obtain p w q where c: "c = p @ w @ q" and p: "list_all (\<lambda>x. x \<in> set '':-'') p"
    and w: "list_all asciiSpace w" and q: "list_all (\<lambda>x. x \<in> set '':-'') q"
    by (elim exE conjE)
  have "Trim c '':-'' = w"
    unfolding c using p w q by (rule Trim_sandwich)
  with TrimSpace_spaces [OF w] show "TrimSpace L (Trim c '':-'') = []"
    by (simp only:)
qed

subsection \<open>The keyword-anchored extractor\<close>

lemma isASCII_drop: "isASCII s \<Longrightarrow> isASCII (drop n s)"
  unfolding isASCII_def list_all_iff by (auto dest: in_set_dropD)

lemma isASCII_take: "isASCII s \<Longrightarrow> isASCII (take n s)"
  unfolding isASCII_def list_all_iff by (auto dest: in_set_takeD)

lemma length_ToUpper_ascii: "isASCII s \<Longrightarrow> length (ToUpper L s) = length s"
  by (simp add: ToUpper_def)

lemma slice_to_Inr: "slice_to s hi = Inr r \<Longrightarrow> r = take (nat hi) s"
  by (auto simp: slice_to_def split: if_splits)

lemma stop_at_next_prefix:
  "stop_at_next L kwU hs content = Inr c \<Longrightarrow> \<exists>n. c = take n content"
proof (induction hs)
  case Nil
  then have "c = take (length content) content" by simp
  then show ?case ..
next
  case (Cons h hs)
  show ?case
  proof (cases "h = kwU \<or> Index (ToUpper L content) h = - 1")
    case True
    with Cons.prems have "stop_at_next L kwU hs content = Inr c"
      by (auto simp: Let_def split: if_splits)
    with Cons.IH show ?thesis by simp
  next
    case False
    with Cons.prems have "slice_to content (Index (ToUpper L content) h) = Inr c"
      by (simp add: Let_def)
    from slice_to_Inr [OF this] show ?thesis ..
  qed
qed

lemma stop_at_next_ascii:
  assumes "isASCII content"
  shows "\<exists>c. stop_at_next L kwU hs content = Inr c"
proof (induction hs)
  case Nil
  show ?case by simp
next
  case (Cons h hs)
  show ?case
  proof (cases "h = kwU \<or> Index (ToUpper L content) h = - 1")
    case True
    then have "stop_at_next L kwU (h # hs) content = stop_at_next L kwU hs content"
      by (auto simp: Let_def)
    with Cons.IH show ?thesis by simp
  next
    case False
    then have found: "Index (ToUpper L content) h \<noteq> - 1" by simp
    from Index_found(1,2) [OF found] length_ToUpper_ascii [OF assms, of L]
    have "0 \<le> Index (ToUpper L content) h" "Index (ToUpper L content) h \<le> int (length content)"
      by auto
    with False show ?thesis
      by (simp add: Let_def slice_to_def)
  qed
qed

lemma slice_from_Inr: "slice_from s lo = Inr r \<Longrightarrow> r = drop (nat lo) s"
  by (auto simp: slice_from_def split: if_splits)

lemma extractSection_cases:
  "extractSection L s kw = Inr no_information \<or>
   (\<exists>p. extractSection L s kw = Inl p) \<or>
   (\<exists>m n. extractSection L s kw = Inr (TrimSpace L (Trim (take n (drop m s)) '':-'')) \<and>
       TrimSpace L (Trim (take n (drop m s)) '':-'') \<noteq> [])"
proof (cases "s = [] \<or> Index (ToUpper L s) (ToUpper L kw) = - 1")
  case True
  then show ?thesis
    by (auto simp: extractSection_def Let_def)
next
  case False
  let ?lo = "Index (ToUpper L s) (ToUpper L kw) + int (length (ToUpper L kw))"
  show ?thesis
  proof (cases "slice_from s ?lo")
    case (Inl p)
    with False show ?thesis
      by (simp add: extractSection_def Let_def)
  next
    case (Inr content)
    then have content: "content = drop (nat ?lo) s"
      by (rule slice_from_Inr)
    show ?thesis
    proof (cases "stop_at_next L (ToUpper L kw) section_headers content")
      case (Inl p)
      with False Inr show ?thesis
        by (simp add: extractSection_def Let_def)
    next
      case inner: (Inr c)
      from stop_at_next_prefix [OF inner] content obtain n where c: "c = take n (drop (nat ?lo) s)"
        by blast
      have "extractSection L s kw =
        (if TrimSpace L (Trim c '':-'') = [] then Inr no_information
         else Inr (TrimSpace L (Trim c '':-'')))"
        using False Inr inner by (simp add: extractSection_def Let_def)
      with c show ?thesis
        by (cases "TrimSpace L (Trim c '':-'') = []") auto
    qed
  qed
qed

lemma no_information_nonempty: "no_information \<noteq> []"
  by (simp add: no_information_def)

lemma extractSection_total_ascii:
  assumes "isASCII s"
  shows "\<exists>r. extractSection L s kw = Inr r"
proof (cases "s = [] \<or> Index (ToUpper L s) (ToUpper L kw) = - 1")
  case True
  then show ?thesis
    by (auto simp: extractSection_def Let_def)
next
  case False
  then have found: "Index (ToUpper L s) (ToUpper L kw) \<noteq> - 1" by simp
  let ?lo = "Index (ToUpper L s) (ToUpper L kw) + int (length (ToUpper L kw))"
  from Index_found(1,2) [OF found] length_ToUpper_ascii [OF assms, of L]
  have "0 \<le> ?lo" "?lo \<le> int (length s)"
    by auto
  then have sl: "slice_from s ?lo = Inr (drop (nat ?lo) s)"
    by (simp add: slice_from_def)
  from stop_at_next_ascii [OF isASCII_drop [OF assms], of L "ToUpper L kw" section_headers "nat ?lo"]
  obtain c where c: "stop_at_next L (ToUpper L kw) section_headers (drop (nat ?lo) s) = Inr c"
    by blast
  from False sl c show ?thesis
    by (simp add: extractSection_def Let_def)
qed

lemma ToUpper_ascii_occurrence:
  assumes "isASCII s" and "isASCII kw"
  shows "HasPrefix (drop j (ToUpper L s)) (ToUpper L kw) \<longleftrightarrow>
         map upper_byte (take (length kw) (drop j s)) = map upper_byte kw"
  using assms by (simp add: ToUpper_def HasPrefix_iff_take drop_map take_map)

lemma Index_least:
  assumes "HasPrefix (drop i s) sub" and "\<forall>j<i. \<not> HasPrefix (drop j s) sub"
  shows "Index s sub = int i"
proof -
  from assms(1) have found: "Index s sub \<noteq> - 1"
    by (auto simp: Index_absent)
  from Index_found [OF found] have nn: "0 \<le> Index s sub"
    and occ: "HasPrefix (drop (nat (Index s sub)) s) sub"
    and least: "\<forall>j<nat (Index s sub). \<not> HasPrefix (drop j s) sub"
    by auto
  from occ assms(2) have "\<not> nat (Index s sub) < i" by blast
  moreover from assms(1) least have "\<not> i < nat (Index s sub)" by blast
  ultimately have "nat (Index s sub) = i" by simp
  with nn show ?thesis by simp
qed

lemma extractSection_turned_a:
  assumes "MapToUpper L turned_a_text = turned_a_upper"
  shows "extractSection L turned_a_text ''BREAKFAST'' = Inr no_information"
    and "extractSection L turned_a_text ''LUNCH'' = Inl SliceBoundsOutOfRange"
proof -
  have na: "\<not> isASCII turned_a_text"
    by code_simp
  have up: "ToUpper L turned_a_text = turned_a_upper"
    using na assms by (simp add: ToUpper_def)
  have kb: "ToUpper L ''BREAKFAST'' = ''BREAKFAST''"
    by code_simp
  have kl: "ToUpper L ''LUNCH'' = ''LUNCH''"
    by code_simp
  have ib: "Index turned_a_upper ''BREAKFAST'' = - 1"
    by code_simp
  have il: "Index turned_a_upper ''LUNCH'' = 3"
    by code_simp
  have ne: "turned_a_text \<noteq> []"
    by (simp add: turned_a_text_def)
  have sl: "slice_from turned_a_text (3 + int (length ''LUNCH'')) = Inl SliceBoundsOutOfRange"
    by code_simp
  show "extractSection L turned_a_text ''BREAKFAST'' = Inr no_information"
    using ne by (simp add: extractSection_def up kb ib)
  show "extractSection L turned_a_text ''LUNCH'' = Inl SliceBoundsOutOfRange"
    using ne sl by (simp add: extractSection_def up kl il)
qed

text \<open>
  On ASCII text and label the offsets in the upper-cased text are offsets in the text: the
  extractor works on what follows the first match of the label up to case.
\<close>

lemma extractSection_ascii_first:
  assumes s: "isASCII s" and kw: "isASCII kw" and ne: "s \<noteq> []"
    and occ: "map upper_byte (take (length kw) (drop i s)) = map upper_byte kw"
    and least: "\<forall>j<i. map upper_byte (take (length kw) (drop j s)) \<noteq> map upper_byte kw"
  shows "\<exists>c. stop_at_next L (map upper_byte kw) section_headers (drop (i + length kw) s) = Inr c \<and>
             extractSection L s kw =
               (if TrimSpace L (Trim c '':-'') = [] then Inr no_information
                else Inr (TrimSpace L (Trim c '':-'')))"
proof -
  have up: "ToUpper L s = map upper_byte s" "ToUpper L kw = map upper_byte kw"
    using s kw by (simp_all add: ToUpper_def)
  from occ have o: "HasPrefix (drop i (ToUpper L s)) (ToUpper L kw)"
    by (simp add: ToUpper_ascii_occurrence [OF s kw])
  from least have l: "\<forall>j<i. \<not> HasPrefix (drop j (ToUpper L s)) (ToUpper L kw)"
    by (simp add: ToUpper_ascii_occurrence [OF s kw])
  from Index_least [OF o l] have idx: "Index (ToUpper L s) (ToUpper L kw) = int i" .
  then have found: "Index (ToUpper L s) (ToUpper L kw) \<noteq> - 1"
    by simp
  from Index_found(2) [OF found] idx up have "i + length kw \<le> length s"
    by simp
  then have sl: "slice_from s (int i + int (length (ToUpper L kw))) = Inr (drop (i + length kw) s)"
    using up by (simp add: slice_from_def nat_add_distrib)
  from stop_at_next_ascii [OF isASCII_drop [OF s], of L "map upper_byte kw" section_headers
      "i + length kw"]
  obtain c where c: "stop_at_next L (map upper_byte kw) section_headers (drop (i + length kw) s) =
      Inr c"
    by blast
  have "extractSection L s kw =
      (if TrimSpace L (Trim c '':-'') = [] then Inr no_information
       else Inr (TrimSpace L (Trim c '':-'')))"
    using ne idx sl c up by (simp add: extractSection_def Let_def)
  with c show ?thesis
    by blast
qed

text \<open>
  No call returns the empty string: a call returns the sentinel, or panics, or returns a
  piece of the text after \<open>Trim\<close> and \<open>TrimSpace\<close> that is not empty; on ASCII text it
  returns.
\<close>

lemma extractSection_result_nonempty:
  "extractSection L s kw \<noteq> Inr [] \<and>
   (extractSection L s kw = Inr no_information \<or>
    (\<exists>p. extractSection L s kw = Inl p) \<or>
    (\<exists>m n. extractSection L s kw = Inr (TrimSpace L (Trim (take n (drop m s)) '':-'')) \<and>
       TrimSpace L (Trim (take n (drop m s)) '':-'') \<noteq> [])) \<and>
   no_information = ''No information available.'' \<and>
   (isASCII s \<longrightarrow> (\<exists>r. extractSection L s kw = Inr r \<and> r \<noteq> []))"
proof -
  have ne: "extractSection L s kw \<noteq> Inr []"
    using extractSection_cases [of L s kw] no_information_nonempty by auto
  moreover have "isASCII s \<longrightarrow> (\<exists>r. extractSection L s kw = Inr r \<and> r \<noteq> [])"
    using extractSection_total_ascii [of s L kw] ne by auto
  ultimately show ?thesis
    using extractSection_cases [of L s kw] by (simp add: no_information_def)
qed

subsection \<open>The keyword search\<close>

lemma keywords_loop_iff:
  "keywords_loop L t ks \<longleftrightarrow> (\<exists>k\<in>set ks. k \<noteq> [] \<and> Contains t (ToLower L k))"
  by (induction ks) auto

lemma ToLower_Nil: "ToLower L [] = []"
  by (simp add: ToLower_def isASCII_def)

lemma containsKeywords_iff:
  assumes "list_all (\<lambda>k. ToLower L k = k) ks"
  shows "containsKeywords L s ks \<longleftrightarrow>
         (\<exists>k\<in>set ks. k \<noteq> [] \<and> (\<exists>a b. ToLower L s = a @ k @ b))"
proof (cases "s = []")
  case True
  then show ?thesis
    by (auto simp: containsKeywords_def ToLower_Nil)
next
  case False
  from assms have same: "\<And>k. k \<in> set ks \<Longrightarrow> ToLower L k = k"
    by (simp add: list_all_iff)
  show ?thesis
  proof (cases "ks = []")
    case True
    then show ?thesis by (simp add: containsKeywords_def)
  next
    case nonempty: False
    with False have "containsKeywords L s ks \<longleftrightarrow> keywords_loop L (ToLower L s) ks"
      by (simp add: containsKeywords_def)
    also have "\<dots> \<longleftrightarrow> (\<exists>k\<in>set ks. k \<noteq> [] \<and> Contains (ToLower L s) (ToLower L k))"
      by (rule keywords_loop_iff)
    also have "\<dots> \<longleftrightarrow> (\<exists>k\<in>set ks. k \<noteq> [] \<and> (\<exists>a b. ToLower L s = a @ k @ b))"
      using same by (auto simp: Contains_iff)
    finally show ?thesis .
  qed
qed

lemma emergency_keywords_lower: "list_all (\<lambda>k. ToLower L k = k) emergency_keywords"
  by code_simp

lemma urgent_keywords_lower: "list_all (\<lambda>k. ToLower L k = k) urgent_keywords"
  by code_simp

lemma keywords_nonempty:
  "list_all (\<lambda>k. k \<noteq> []) emergency_keywords" "list_all (\<lambda>k. k \<noteq> []) urgent_keywords"
  by (simp_all add: emergency_keywords_def urgent_keywords_def)

lemma containsKeywords_program:
  "containsKeywords L s emergency_keywords \<longleftrightarrow>
     (\<exists>k\<in>set emergency_keywords. \<exists>a b. ToLower L s = a @ k @ b)"
  "containsKeywords L s urgent_keywords \<longleftrightarrow>
     (\<exists>k\<in>set urgent_keywords. \<exists>a b. ToLower L s = a @ k @ b)"
  using keywords_nonempty
  by (auto simp: containsKeywords_iff [OF emergency_keywords_lower]
      containsKeywords_iff [OF urgent_keywords_lower] list_all_iff)

text \<open>
  The urgency depends on the lower-cased text only; on ASCII text a keyword is found
  exactly when some substring of the text equals it up to the case of its letters.
\<close>

lemma lowered_occurrence:
  "(\<exists>a b. map lower_byte s = a @ k @ b) \<longleftrightarrow>
   (\<exists>a u b. s = a @ u @ b \<and> map lower_byte u = k)"
proof
  assume "\<exists>a b. map lower_byte s = a @ k @ b"
  then obtain a b where "map lower_byte s = a @ k @ b"
    by blast
  then obtain a' r where r: "s = a' @ r" "map lower_byte r = k @ b"
    by (metis map_eq_append_conv)
  from r(2) obtain u b' where "r = u @ b'" "map lower_byte u = k"
    by (metis map_eq_append_conv)
  with r(1) show "\<exists>a u b. s = a @ u @ b \<and> map lower_byte u = k"
    by blast
next
  assume "\<exists>a u b. s = a @ u @ b \<and> map lower_byte u = k"
  then obtain a u b where "s = a @ u @ b" "map lower_byte u = k"
    by blast
  then have "map lower_byte s = map lower_byte a @ k @ map lower_byte b"
    by simp
  then show "\<exists>a b. map lower_byte s = a @ k @ b"
    by blast
qed

lemma symptomUrgency_lowered:
  "symptomUrgency L s =
     (if \<exists>k\<in>set emergency_keywords. \<exists>a b. ToLower L s = a @ k @ b then ''emergency''
      else if \<exists>k\<in>set urgent_keywords. \<exists>a b. ToLower L s = a @ k @ b then ''urgent''
      else ''routine'')"
  unfolding symptomUrgency_def containsKeywords_program ..

lemma symptomUrgency_ascii:
  assumes "isASCII s"
  shows "symptomUrgency L s =
     (if \<exists>k\<in>set emergency_keywords. \<exists>a u b. s = a @ u @ b \<and> map lower_byte u = k
      then ''emergency''
      else if \<exists>k\<in>set urgent_keywords. \<exists>a u b. s = a @ u @ b \<and> map lower_byte u = k
      then ''urgent''
      else ''routine'')"
proof -
  from assms have "ToLower L s = map lower_byte s"
    by (simp add: ToLower_def)
  then show ?thesis
    unfolding symptomUrgency_lowered by (simp only: lowered_occurrence)
qed

lemma symptomUrgency_case:
  assumes "isASCII s" and "isASCII t" and "map lower_byte s = map lower_byte t"
  shows "symptomUrgency L s = symptomUrgency L t"
proof -
  from assms have "ToLower L s = ToLower L t"
    by (simp add: ToLower_def)
  then show ?thesis
    unfolding symptomUrgency_lowered by simp
qed

subsection \<open>The flows\<close>

lemma bloodSugarFlow_success:
  assumes "generate w (bloodSugarPrompt L input) = (Inr s, w')"
  shows "\<exists>parts. splitIntoSections L s 3 = Inr parts \<and> length parts = 3 \<and>
           bloodSugarFlow L generate w input =
             (Inr (Inr \<lparr>Status = bloodSugarStatus (Reading input), Interpretation = parts ! 0,
                        BloodSugarOutput.Recommendation = parts ! 1\<rparr>), w')"
proof -
  obtain parts where p: "splitIntoSections L s 3 = Inr parts" "length parts = nat 3"
    by (rule splitIntoSections_parts [of 3 L s]) simp_all
  then show ?thesis
    using assms by (simp add: bloodSugarFlow_def at_index_def)
qed

text \<open>
  A flow whose backend call fails returns the error of that call, wrapped under the
  message of its category, and the state after that one call. A flow whose backend call
  returns text returns a response: always for the blood-sugar, symptom, exercise and
  medication flows, and for the meal planner when the text is ASCII.
\<close>

lemma flows_return_backend_error:
  "generate w (bloodSugarPrompt L bs) = (Inl err, w') \<Longrightarrow>
     bloodSugarFlow L generate w bs =
       (Inr (Inl (Errorf_w ''failed to interpret blood sugar: '' err)), w')"
  "generate w (mealPlanPrompt L mp) = (Inl err, w') \<Longrightarrow>
     mealPlanFlow L generate w mp =
       (Inr (Inl (Errorf_w ''failed to generate meal plan: '' err)), w')"
  "generate w (symptomPrompt sy) = (Inl err, w') \<Longrightarrow>
     symptomFlow L generate w sy = (Inr (Inl (Errorf_w ''failed to check symptoms: '' err)), w')"
  "generate w (exercisePrompt L ex) = (Inl err, w') \<Longrightarrow>
     exerciseFlow L generate w ex =
       (Inr (Inl (Errorf_w ''failed to generate exercise plan: '' err)), w')"
  "generate w (medicationPrompt md) = (Inl err, w') \<Longrightarrow>
     medicationFlow generate w md =
       (Inr (Inl (Errorf_w ''failed to get medication info: '' err)), w')"
  by (simp_all add: bloodSugarFlow_def mealPlanFlow_def symptomFlow_def exerciseFlow_def
      medicationFlow_def)

lemma Errorf_w_message: "Error (Errorf_w prefix err) = prefix @ Error err"
  and Errorf_w_unwrap: "Unwrap (Errorf_w prefix err) = Some err"
  by (simp_all add: Errorf_w_def)

lemma symptomFlow_success:
  assumes "generate w (symptomPrompt input) = (Inr s, w')"
  shows "\<exists>parts. splitIntoSections L s 3 = Inr parts \<and> length parts = 3 \<and>
           symptomFlow L generate w input =
             (Inr (Inr \<lparr>Urgency = symptomUrgency L s, Assessment = parts ! 0,
                        NextSteps = parts ! 1\<rparr>), w')"
proof -
  obtain parts where p: "splitIntoSections L s 3 = Inr parts" "length parts = nat 3"
    by (rule splitIntoSections_parts [of 3 L s]) simp_all
  then show ?thesis
    using assms by (simp add: symptomFlow_def at_index_def)
qed

lemma exerciseFlow_success:
  assumes "generate w (exercisePrompt L input) = (Inr s, w')"
  shows "\<exists>parts. splitIntoSections L s 4 = Inr parts \<and> length parts = 4 \<and>
           exerciseFlow L generate w input =
             (Inr (Inr \<lparr>SafetyCheck = parts ! 0, ExerciseOutput.Recommendation = parts ! 1,
                        ExerciseOutput.Duration = parts ! 2, Precautions = parts ! 3\<rparr>), w')"
proof -
  obtain parts where p: "splitIntoSections L s 4 = Inr parts" "length parts = nat 4"
    by (rule splitIntoSections_parts [of 4 L s]) simp_all
  then show ?thesis
    using assms by (simp add: exerciseFlow_def at_index_def)
qed

lemma mealPlanFlow_success_ascii:
  assumes "generate w (mealPlanPrompt L input) = (Inr s, w')" and "isASCII s"
  shows "\<exists>out. mealPlanFlow L generate w input = (Inr (Inr out), w')"
proof -
  from extractSection_total_ascii [OF assms(2)] obtain b l d n where
    "extractSection L s ''BREAKFAST'' = Inr b" "extractSection L s ''LUNCH'' = Inr l"
    "extractSection L s ''DINNER'' = Inr d" "extractSection L s ''SNACKS'' = Inr n"
    by metis
  with assms(1) show ?thesis
    by (simp add: mealPlanFlow_def parseMealSections_def)
qed

text \<open>
  Every flow leaves the backend in the state after its one call, and returns an error
  exactly when that call returned one.
\<close>

lemma flows_call_backend_once:
  "snd (bloodSugarFlow L generate w bs) = snd (generate w (bloodSugarPrompt L bs))"
  "snd (mealPlanFlow L generate w mp) = snd (generate w (mealPlanPrompt L mp))"
  "snd (symptomFlow L generate w sy) = snd (generate w (symptomPrompt sy))"
  "snd (exerciseFlow L generate w ex) = snd (generate w (exercisePrompt L ex))"
  "snd (medicationFlow generate w md) = snd (generate w (medicationPrompt md))"
  by (auto simp: bloodSugarFlow_def mealPlanFlow_def symptomFlow_def exerciseFlow_def
      medicationFlow_def Let_def split: prod.splits sum.splits)

lemma flows_fail_iff_backend_fails:
  "(\<exists>e. fst (bloodSugarFlow L generate w bs) = Inr (Inl e)) \<longleftrightarrow>
     (\<exists>err. fst (generate w (bloodSugarPrompt L bs)) = Inl err)"
  "(\<exists>e. fst (mealPlanFlow L generate w mp) = Inr (Inl e)) \<longleftrightarrow>
     (\<exists>err. fst (generate w (mealPlanPrompt L mp)) = Inl err)"
  "(\<exists>e. fst (symptomFlow L generate w sy) = Inr (Inl e)) \<longleftrightarrow>
     (\<exists>err. fst (generate w (symptomPrompt sy)) = Inl err)"
  "(\<exists>e. fst (exerciseFlow L generate w ex) = Inr (Inl e)) \<longleftrightarrow>
     (\<exists>err. fst (generate w (exercisePrompt L ex)) = Inl err)"
  "(\<exists>e. fst (medicationFlow generate w md) = Inr (Inl e)) \<longleftrightarrow>
     (\<exists>err. fst (generate w (medicationPrompt md)) = Inl err)"
  by (auto simp: bloodSugarFlow_def mealPlanFlow_def symptomFlow_def exerciseFlow_def
      medicationFlow_def Let_def split: prod.splits sum.splits)

lemma failing_backend_example:
  "symptomFlow sample_stdlib failing_backend 0
     \<lparr>Symptoms = ''dizzy'', Duration = ''2 days'', CurrentMeds = ''none''\<rparr> =
   (Inr (Inl (WrapError ''failed to check symptoms: quota exceeded''
                (ErrorString ''quota exceeded''))), 1)"
  by (simp add: symptomFlow_def failing_backend_def Errorf_w_def)

section \<open>The claims\<close>

text \<open>
  C1. The claim: the extractor cuts the content at the earliest occurrence (the smallest
  offset) of any other header. The loop instead cuts at the first header, in the order
  BREAKFAST, LUNCH, DINNER, SNACKS, that occurs anywhere in the content. On the text below
  and the label LUNCH the content after the label is \<open>": salad DINNER: breakfast leftovers"\<close>;
  DINNER occurs in it at offset 8 and \<open>breakfast\<close> at offset 16, the loop finds BREAKFAST
  first and cuts at 16, and the result runs into the DINNER section.
\<close>

theorem extractSection_stops_at_listed_order:
  "extractSection L bleeding_example ''LUNCH'' = Inr ''salad DINNER:'' \<and>
   slice_from bleeding_example 21 = Inr '': salad DINNER: breakfast leftovers'' \<and>
   Index (ToUpper L '': salad DINNER: breakfast leftovers'') ''DINNER'' = 8 \<and>
   Index (ToUpper L '': salad DINNER: breakfast leftovers'') ''BREAKFAST'' = 16 \<and>
   slice_to '': salad DINNER: breakfast leftovers'' 16 = Inr '': salad DINNER: ''"
proof -
  have 1: "extractSection L bleeding_example ''LUNCH'' = Inr ''salad DINNER:''"
    by code_simp
  have 2: "slice_from bleeding_example 21 = Inr '': salad DINNER: breakfast leftovers''"
    by code_simp
  have 3: "Index (ToUpper L '': salad DINNER: breakfast leftovers'') ''DINNER'' = 8"
    by code_simp
  have 4: "Index (ToUpper L '': salad DINNER: breakfast leftovers'') ''BREAKFAST'' = 16"
    by code_simp
  have 5: "slice_to '': salad DINNER: breakfast leftovers'' 16 = Inr '': salad DINNER: ''"
    by code_simp
  from 1 2 3 4 5 show ?thesis
    by blast
qed

text \<open>
  C2. The claim: for a count of zero or less the splitter returns an empty result and
  never panics. \<open>make([]string, numSections)\<close> comes before the guard
  \<open>numSections <= 0\<close>, so a negative count panics, for an empty text too; the count 0
  gives the empty sequence.
\<close>

theorem splitIntoSections_negative_count:
  "splitIntoSections L ''a'' (- 1) = Inl MakesliceLenOutOfRange \<and>
   splitIntoSections L [] (- 1) = Inl MakesliceLenOutOfRange \<and>
   splitIntoSections L ''a'' 0 = Inr []"
  by (simp add: splitIntoSections_def make_strings_def maxAlloc_def)

text \<open>
  C3. When the backend returns text, the flow succeeds and its status is the function
  \<open>bloodSugarStatus\<close> of the reading alone, whatever the text: below 70 it is \<open>"low"\<close>,
  above 250 \<open>"critical"\<close>, above 180 \<open>"high"\<close> and otherwise \<open>"normal"\<close> (which is also
  the status of a NaN); 50, 300, 200 and 145 give low, critical, high and normal.
\<close>

theorem bloodSugar_status_from_reading:
  "(generate w (bloodSugarPrompt L input) = (Inr s, w') \<longrightarrow>
      (\<exists>out. bloodSugarFlow L generate w input = (Inr (Inr out), w') \<and>
             Status out = bloodSugarStatus (Reading input))) \<and>
   bloodSugarStatus (Finite r) =
     (if r < 70 then ''low'' else if 250 < r then ''critical''
      else if 180 < r then ''high'' else ''normal'') \<and>
   bloodSugarStatus NegInf = ''low'' \<and> bloodSugarStatus PosInf = ''critical'' \<and>
   bloodSugarStatus NaN = ''normal'' \<and>
   bloodSugarStatus (Finite 50) = ''low'' \<and> bloodSugarStatus (Finite 300) = ''critical'' \<and>
   bloodSugarStatus (Finite 200) = ''high'' \<and> bloodSugarStatus (Finite 145) = ''normal''"
proof -
  have flow: "generate w (bloodSugarPrompt L input) = (Inr s, w') \<longrightarrow>
      (\<exists>out. bloodSugarFlow L generate w input = (Inr (Inr out), w') \<and>
             Status out = bloodSugarStatus (Reading input))"
  proof
    assume "generate w (bloodSugarPrompt L input) = (Inr s, w')"
    from bloodSugarFlow_success [of generate w L input s w'] this show "\<exists>out. bloodSugarFlow L generate w input = (Inr (Inr out), w') \<and>
             Status out = bloodSugarStatus (Reading input)"
      by auto
  qed
  have thresholds: "bloodSugarStatus (Finite r) =
     (if r < 70 then ''low'' else if 250 < r then ''critical''
      else if 180 < r then ''high'' else ''normal'')"
    by (simp add: bloodSugarStatus_def f64_greater_def)
  have specials: "bloodSugarStatus NegInf = ''low''" "bloodSugarStatus PosInf = ''critical''"
    "bloodSugarStatus NaN = ''normal''"
    by (simp_all add: bloodSugarStatus_def f64_greater_def)
  have examples: "bloodSugarStatus (Finite 50) = ''low''" "bloodSugarStatus (Finite 300) = ''critical''"
    "bloodSugarStatus (Finite 200) = ''high''" "bloodSugarStatus (Finite 145) = ''normal''"
    by (simp_all add: bloodSugarStatus_def f64_greater_def)
  from flow thresholds specials examples show ?thesis
    by blast
qed

theorem bloodSugar_status_from_reading_witness:
  "(\<exists>out. bloodSugarFlow sample_stdlib (sample_backend ''Fine.\<newline>\<newline>Keep going.'') 0
            \<lparr>Reading = Finite 145, MealTiming = ''after_meal'', MealType = ''lunch''\<rparr>
          = (Inr (Inr out), 1) \<and> Status out = ''normal'')"
proof -
  let ?input = "\<lparr>Reading = Finite 145, MealTiming = ''after_meal'', MealType = ''lunch''\<rparr>"
  have call: "sample_backend ''Fine.\<newline>\<newline>Keep going.'' 0 (bloodSugarPrompt sample_stdlib ?input)
     = (Inr ''Fine.\<newline>\<newline>Keep going.'', 1)"
    by (simp add: sample_backend_def)
  from bloodSugar_status_from_reading [of "sample_backend ''Fine.\<newline>\<newline>Keep going.''" 0 sample_stdlib
      ?input "''Fine.\<newline>\<newline>Keep going.''" 1 145] call
  show ?thesis
    by auto
qed

text \<open>
  C4. When the backend returns text, the urgency of the symptom flow is the function
  \<open>symptomUrgency\<close> of that text: \<open>"emergency"\<close> when one of the emergency keywords is a
  substring of the lower-cased text, otherwise \<open>"urgent"\<close> when one of the urgent keywords
  is, otherwise \<open>"routine"\<close>; so a text with keywords of both sets is an emergency. The
  matching ignores case: on ASCII text a keyword is found exactly when some substring of
  the text equals it after the letters A to Z are replaced by a to z, two ASCII texts
  that differ only in the case of their letters have the same urgency, and texts whose
  keywords are in capitals are classified by them.
\<close>

theorem symptom_urgency_by_keywords:
  "(generate w (symptomPrompt input) = (Inr s, w') \<longrightarrow>
      (\<exists>out. symptomFlow L generate w input = (Inr (Inr out), w') \<and>
             Urgency out = symptomUrgency L s)) \<and>
   symptomUrgency L s =
     (if \<exists>k\<in>set [''emergency'', ''911'', ''immediate'', ''urgent care''].
           \<exists>a b. ToLower L s = a @ k @ b then ''emergency''
      else if \<exists>k\<in>set [''urgent'', ''contact doctor'', ''today''].
           \<exists>a b. ToLower L s = a @ k @ b then ''urgent''
      else ''routine'') \<and>
   (isASCII s \<longrightarrow> ToLower L s = map lower_byte s) \<and>
   (\<not> isASCII s \<longrightarrow> ToLower L s = MapToLower L s) \<and>
   (isASCII s \<longrightarrow>
      symptomUrgency L s =
        (if \<exists>k\<in>set [''emergency'', ''911'', ''immediate'', ''urgent care''].
              \<exists>a u b. s = a @ u @ b \<and> map lower_byte u = k then ''emergency''
         else if \<exists>k\<in>set [''urgent'', ''contact doctor'', ''today''].
              \<exists>a u b. s = a @ u @ b \<and> map lower_byte u = k then ''urgent''
         else ''routine'')) \<and>
   (isASCII s \<and> isASCII t \<and> map lower_byte s = map lower_byte t \<longrightarrow>
      symptomUrgency L s = symptomUrgency L t) \<and>
   map lower_byte ''ABCDEFGHIJKLMNOPQRSTUVWXYZ'' = ''abcdefghijklmnopqrstuvwxyz'' \<and>
   (\<forall>c. c \<notin> set ''ABCDEFGHIJKLMNOPQRSTUVWXYZ'' \<longrightarrow> lower_byte c = c) \<and>
   symptomUrgency L ''please go to the ER, this is an emergency'' = ''emergency'' \<and>
   symptomUrgency L ''contact your doctor today'' = ''urgent'' \<and>
   symptomUrgency L ''Drink water and rest.'' = ''routine'' \<and>
   symptomUrgency L ''Contact your doctor TODAY, or call 911.'' = ''emergency'' \<and>
   symptomUrgency L ''THIS IS AN EMERGENCY'' = ''emergency'' \<and>
   symptomUrgency L ''Go to Urgent Care now'' = ''emergency'' \<and>
   symptomUrgency L ''CONTACT YOUR DOCTOR TODAY'' = ''urgent'' \<and>
   symptomUrgency L ''Please Contact Doctor Smith'' = ''urgent''"
proof -
  have flow: "generate w (symptomPrompt input) = (Inr s, w') \<longrightarrow>
      (\<exists>out. symptomFlow L generate w input = (Inr (Inr out), w') \<and>
             Urgency out = symptomUrgency L s)"
  proof
    assume "generate w (symptomPrompt input) = (Inr s, w')"
    from symptomFlow_success [of generate w input s w' L] this
    show "\<exists>out. symptomFlow L generate w input = (Inr (Inr out), w') \<and>
             Urgency out = symptomUrgency L s"
      by auto
  qed
  have urgency: "symptomUrgency L s =
     (if \<exists>k\<in>set [''emergency'', ''911'', ''immediate'', ''urgent care''].
           \<exists>a b. ToLower L s = a @ k @ b then ''emergency''
      else if \<exists>k\<in>set [''urgent'', ''contact doctor'', ''today''].
           \<exists>a b. ToLower L s = a @ k @ b then ''urgent''
      else ''routine'')"
    unfolding symptomUrgency_lowered
    unfolding emergency_keywords_def urgent_keywords_def ..
  have lower: "isASCII s \<longrightarrow> ToLower L s = map lower_byte s"
    by (simp add: ToLower_def)
  have slow: "\<not> isASCII s \<longrightarrow> ToLower L s = MapToLower L s"
    by (simp add: ToLower_def)
  have ascii: "isASCII s \<longrightarrow>
      symptomUrgency L s =
        (if \<exists>k\<in>set [''emergency'', ''911'', ''immediate'', ''urgent care''].
              \<exists>a u b. s = a @ u @ b \<and> map lower_byte u = k then ''emergency''
         else if \<exists>k\<in>set [''urgent'', ''contact doctor'', ''today''].
              \<exists>a u b. s = a @ u @ b \<and> map lower_byte u = k then ''urgent''
         else ''routine'')"
    using symptomUrgency_ascii [of s L]
    unfolding emergency_keywords_def urgent_keywords_def by blast
  have folding: "isASCII s \<and> isASCII t \<and> map lower_byte s = map lower_byte t \<longrightarrow>
      symptomUrgency L s = symptomUrgency L t"
    using symptomUrgency_case [of s t L] by blast
  have e1: "symptomUrgency L ''please go to the ER, this is an emergency'' = ''emergency''"
    by code_simp
  have e2: "symptomUrgency L ''contact your doctor today'' = ''urgent''"
    by code_simp
  have e3: "symptomUrgency L ''Drink water and rest.'' = ''routine''"
    by code_simp
  have e4: "symptomUrgency L ''Contact your doctor TODAY, or call 911.'' = ''emergency''"
    by code_simp
  have e5: "symptomUrgency L ''THIS IS AN EMERGENCY'' = ''emergency''"
    by code_simp
  have e6: "symptomUrgency L ''Go to Urgent Care now'' = ''emergency''"
    by code_simp
  have e7: "symptomUrgency L ''CONTACT YOUR DOCTOR TODAY'' = ''urgent''"
    by code_simp
  have e8: "symptomUrgency L ''Please Contact Doctor Smith'' = ''urgent''"
    by code_simp
  show ?thesis
    by (intro conjI flow urgency lower slow ascii folding lower_byte_alphabet lower_byte_other
        e1 e2 e3 e4 e5 e6 e7 e8)
qed

theorem symptom_urgency_by_keywords_witness:
  "(\<exists>out. symptomFlow sample_stdlib (sample_backend ''THIS IS AN EMERGENCY'') 0
            \<lparr>Symptoms = ''dizzy'', Duration = ''2 days'', CurrentMeds = ''none''\<rparr> =
          (Inr (Inr out), 1) \<and> Urgency out = ''emergency'') \<and>
   isASCII ''CONTACT YOUR DOCTOR TODAY'' \<and> isASCII ''contact YOUR doctor Today'' \<and>
   symptomUrgency sample_stdlib ''contact YOUR doctor Today'' = ''urgent''"
proof -
  let ?input = "\<lparr>Symptoms = ''dizzy'', Duration = ''2 days'', CurrentMeds = ''none''\<rparr>"
  let ?reply = "''THIS IS AN EMERGENCY''"
  let ?s = "''CONTACT YOUR DOCTOR TODAY''"
  let ?t = "''contact YOUR doctor Today''"
  have call: "sample_backend ?reply 0 (symptomPrompt ?input) = (Inr ?reply, 1)"
    by (simp add: sample_backend_def)
  have a1: "isASCII ?s" and a2: "isASCII ?t"
    by code_simp+
  have same: "map lower_byte ?s = map lower_byte ?t"
    by code_simp
  note inst1 = symptom_urgency_by_keywords [of "sample_backend ?reply" 0 ?input ?reply 1 sample_stdlib "[]"]
  note inst2 = symptom_urgency_by_keywords [of undefined undefined undefined ?s undefined sample_stdlib ?t]
  from inst1 have "sample_backend ?reply 0 (symptomPrompt ?input) = (Inr ?reply, 1) \<longrightarrow>
      (\<exists>out. symptomFlow sample_stdlib (sample_backend ?reply) 0 ?input = (Inr (Inr out), 1) \<and>
             Urgency out = symptomUrgency sample_stdlib ?reply)"
    by (rule conjunct1)
  with call obtain out where out: "symptomFlow sample_stdlib (sample_backend ?reply) 0 ?input =
      (Inr (Inr out), 1)" "Urgency out = symptomUrgency sample_stdlib ?reply"
    by blast
  from inst1 have "symptomUrgency sample_stdlib ?reply = ''emergency''"
    by - (elim conjE, assumption)
  with out have flow: "\<exists>out. symptomFlow sample_stdlib (sample_backend ?reply) 0 ?input =
          (Inr (Inr out), 1) \<and> Urgency out = ''emergency''"
    by simp
  from inst2 have "isASCII ?s \<and> isASCII ?t \<and> map lower_byte ?s = map lower_byte ?t \<longrightarrow>
      symptomUrgency sample_stdlib ?s = symptomUrgency sample_stdlib ?t"
    by - (elim conjE, assumption)
  with a1 a2 same have "symptomUrgency sample_stdlib ?s = symptomUrgency sample_stdlib ?t"
    by blast
  moreover from inst2 have "symptomUrgency sample_stdlib ?s = ''urgent''"
    by - (elim conjE, assumption)
  ultimately have "symptomUrgency sample_stdlib ?t = ''urgent''"
    by simp
  with flow a1 a2 show ?thesis
    by blast
qed

text \<open>
  C5, as it is stated, fails for a large count: \<open>make([]string, N)\<close> panics when \<open>N\<close> is
  above the largest length the runtime accepts, as it does for \<open>N = 2^62\<close>.
\<close>

theorem splitIntoSections_every_count_counterexample:
  "splitIntoSections sample_stdlib ''a'' (2 ^ 62) = Inl MakesliceLenOutOfRange"
  by (simp add: splitIntoSections_def make_strings_def maxAlloc_def)

text \<open>
  C5, amended. For a text that is not empty and a count \<open>N\<close> with \<open>1 \<le> N \<le> 2^44\<close> the
  splitter returns exactly \<open>N\<close> slots: slot \<open>j\<close> is the \<open>j\<close>-th chunk of
  \<open>strings.Split(text, "\n\n")\<close> after \<open>strings.TrimSpace\<close> when there is such a chunk,
  and the empty string otherwise; above \<open>2^44\<close> the call panics. The chunks are the text
  cut at its double newlines: joined with double newlines they give the text, and none
  contains a double newline. On an ASCII chunk \<open>TrimSpace\<close> removes the bytes 09 to 0D
  and 20 at both ends.
\<close>

theorem splitIntoSections_slots:
  "(s \<noteq> [] \<and> 1 \<le> n \<and> n \<le> 2 ^ 44 \<longrightarrow>
      (\<exists>xs. splitIntoSections L s n = Inr xs \<and> length xs = nat n \<and>
            (\<forall>j<nat n. xs ! j =
               (if j < length (Split s ''\<newline>\<newline>'')
                then TrimSpace L (Split s ''\<newline>\<newline>'' ! j) else [])))) \<and>
   (2 ^ 44 < n \<longrightarrow> splitIntoSections L s n = Inl MakesliceLenOutOfRange) \<and>
   Join (Split s ''\<newline>\<newline>'') ''\<newline>\<newline>'' = s \<and>
   list_all (\<lambda>c. Index c ''\<newline>\<newline>'' = - 1) (Split s ''\<newline>\<newline>'') \<and>
   (isASCII c \<longrightarrow>
      TrimSpace L c = rev (dropWhile asciiSpace (rev (dropWhile asciiSpace c)))) \<and>
   (\<forall>x. asciiSpace x \<longleftrightarrow>
        x \<in> set [CHR 0x09, CHR 0x0A, CHR 0x0B, CHR 0x0C, CHR 0x0D, CHR 0x20])"
proof -
  have slots: "s \<noteq> [] \<and> 1 \<le> n \<and> n \<le> 2 ^ 44 \<longrightarrow>
      (\<exists>xs. splitIntoSections L s n = Inr xs \<and> length xs = nat n \<and>
            (\<forall>j<nat n. xs ! j =
               (if j < length (Split s ''\<newline>\<newline>'')
                then TrimSpace L (Split s ''\<newline>\<newline>'' ! j) else [])))"
  proof
    assume a: "s \<noteq> [] \<and> 1 \<le> n \<and> n \<le> 2 ^ 44"
    then have "0 \<le> n" and "n \<le> 2 ^ 44"
      by simp_all
    from splitIntoSections_result [OF this, of L s] a
    show "\<exists>xs. splitIntoSections L s n = Inr xs \<and> length xs = nat n \<and>
            (\<forall>j<nat n. xs ! j =
               (if j < length (Split s ''\<newline>\<newline>'')
                then TrimSpace L (Split s ''\<newline>\<newline>'' ! j) else []))"
      by simp
  qed
  have limit: "2 ^ 44 < n \<longrightarrow> splitIntoSections L s n = Inl MakesliceLenOutOfRange"
    by (simp add: splitIntoSections_too_long)
  have join: "Join (Split s ''\<newline>\<newline>'') ''\<newline>\<newline>'' = s"
    by (rule Join_Split) simp
  have free: "list_all (\<lambda>c. Index c ''\<newline>\<newline>'' = - 1) (Split s ''\<newline>\<newline>'')"
    by (rule Split_chunks_free) simp
  from slots limit join free TrimSpace_ascii [of c L] asciiSpace_chars show ?thesis
    by blast
qed

theorem splitIntoSections_slots_witness:
  "splitIntoSections sample_stdlib '' a \<newline>\<newline>b\<newline>\<newline>\<newline>c\<newline>\<newline>d'' 3 = Inr [''a'', ''b'', ''c''] \<and>
   splitIntoSections sample_stdlib '' a \<newline>\<newline>b'' 3 = Inr [''a'', ''b'', []] \<and>
   splitIntoSections sample_stdlib
     ([CHR 0x09, CHR 0x0B] @ ''x y'' @ [CHR 0x0C, CHR 0x0D] @ ''\<newline>\<newline>\<newline>z '') 2 =
     Inr [''x y'', ''z''] \<and>
   (\<exists>xs. splitIntoSections sample_stdlib '' a \<newline>\<newline>b'' 3 = Inr xs \<and> length xs = 3 \<and>
          xs ! 2 = [])"
proof -
  have 1: "splitIntoSections sample_stdlib '' a \<newline>\<newline>b\<newline>\<newline>\<newline>c\<newline>\<newline>d'' 3 = Inr [''a'', ''b'', ''c'']"
    by code_simp
  have 2: "splitIntoSections sample_stdlib '' a \<newline>\<newline>b'' 3 = Inr [''a'', ''b'', []]"
    by code_simp
  have 3: "splitIntoSections sample_stdlib
     ([CHR 0x09, CHR 0x0B] @ ''x y'' @ [CHR 0x0C, CHR 0x0D] @ ''\<newline>\<newline>\<newline>z '') 2 =
     Inr [''x y'', ''z'']"
    by code_simp
  have len: "length (Split '' a \<newline>\<newline>b'' ''\<newline>\<newline>'') = 2"
    by code_simp
  have ne: "'' a \<newline>\<newline>b'' \<noteq> []"
    by simp
  from splitIntoSections_slots [of "'' a \<newline>\<newline>b''" 3 sample_stdlib "[]"]
  have "'' a \<newline>\<newline>b'' \<noteq> [] \<and> (1::int) \<le> 3 \<and> (3::int) \<le> 2 ^ 44 \<longrightarrow>
      (\<exists>xs. splitIntoSections sample_stdlib '' a \<newline>\<newline>b'' 3 = Inr xs \<and> length xs = nat 3 \<and>
            (\<forall>j<nat 3. xs ! j =
               (if j < length (Split '' a \<newline>\<newline>b'' ''\<newline>\<newline>'')
                then TrimSpace sample_stdlib (Split '' a \<newline>\<newline>b'' ''\<newline>\<newline>'' ! j) else [])))"
    by (rule conjunct1)
  with ne len obtain xs where xs: "splitIntoSections sample_stdlib '' a \<newline>\<newline>b'' 3 = Inr xs"
    "length xs = 3"
    "\<forall>j<3. xs ! j = (if j < 2 then TrimSpace sample_stdlib (Split '' a \<newline>\<newline>b'' ''\<newline>\<newline>'' ! j) else [])"
    by auto
  from xs(3) have "xs ! 2 = []" by simp
  with xs(1,2) 1 2 3 show ?thesis by blast
qed

text \<open>
  C6, as it is stated, fails where a colon or hyphen stands behind white space. The
  content \<open>": - "\<close> after the label is only colons, hyphens and white space, and is empty
  after stripping these from its ends; the program removes the colon, stops at the
  space, trims the white space and returns \<open>"-"\<close>, not the sentinel.
\<close>

theorem extractSection_strips_all_counterexample:
  "slice_from ''LUNCH: - '' 5 = Inr '': - '' \<and>
   stop_at_next sample_stdlib ''LUNCH'' section_headers '': - '' = Inr '': - '' \<and>
   strip_as_claimed '': - '' = [] \<and>
   extractSection sample_stdlib ''LUNCH: - '' ''LUNCH'' = Inr ''-'' \<and>
   extractSection sample_stdlib ''LUNCH: - '' ''LUNCH'' \<noteq> Inr ''No information available.''"
proof -
  have 1: "slice_from ''LUNCH: - '' 5 = Inr '': - ''"
    by code_simp
  have 2: "stop_at_next sample_stdlib ''LUNCH'' section_headers '': - '' = Inr '': - ''"
    by code_simp
  have 3: "strip_as_claimed '': - '' = []"
    by code_simp
  have 4: "extractSection sample_stdlib ''LUNCH: - '' ''LUNCH'' = Inr ''-''"
    by code_simp
  then have 5: "extractSection sample_stdlib ''LUNCH: - '' ''LUNCH'' \<noteq>
      Inr ''No information available.''"
    by simp
  from 1 2 3 4 5 show ?thesis
    by blast
qed

text \<open>
  C6, amended. For the empty text, and for a text in whose upper-cased form the
  upper-cased label occurs nowhere, the extractor returns the sentinel. For an ASCII text
  and label it works on what follows the first match of the label up to the case of the
  letters a to z, at the least offset \<open>i\<close>: that content is cut by the loop over the headers,
  then \<open>strings.Trim\<close> removes the colons and hyphens at both ends, then
  \<open>strings.TrimSpace\<close> the white space at both ends, in this order, and an empty result
  gives the sentinel. The result is empty exactly when the cut content is colons and
  hyphens, then white space, then colons and hyphens; a colon or hyphen behind white
  space stays (\<open>"LUNCH - salad"\<close> gives \<open>"- salad"\<close>). Text that is not ASCII is left out
  here: see C8 and C9.
\<close>

theorem extractSection_first_occurrence:
  "extractSection L [] kw = Inr no_information \<and>
   ((\<forall>j. \<not> HasPrefix (drop j (ToUpper L s)) (ToUpper L kw)) \<longrightarrow>
      extractSection L s kw = Inr no_information) \<and>
   (isASCII s \<and> isASCII kw \<longrightarrow>
      (HasPrefix (drop j (ToUpper L s)) (ToUpper L kw) \<longleftrightarrow>
       map upper_byte (take (length kw) (drop j s)) = map upper_byte kw)) \<and>
   (isASCII s \<and> isASCII kw \<and> s \<noteq> [] \<and>
    map upper_byte (take (length kw) (drop i s)) = map upper_byte kw \<and>
    (\<forall>j<i. map upper_byte (take (length kw) (drop j s)) \<noteq> map upper_byte kw) \<longrightarrow>
      (\<exists>c. stop_at_next L (map upper_byte kw) section_headers (drop (i + length kw) s) = Inr c \<and>
           extractSection L s kw =
             (if TrimSpace L (Trim c '':-'') = [] then Inr no_information
              else Inr (TrimSpace L (Trim c '':-''))))) \<and>
   (list_all (\<lambda>x. x \<in> set '':-'') p \<and> list_all asciiSpace w \<and>
    list_all (\<lambda>x. x \<in> set '':-'') q \<longrightarrow>
      Trim (p @ w @ q) '':-'' = w \<and> TrimSpace L (Trim (p @ w @ q) '':-'') = []) \<and>
   (isASCII c \<and> TrimSpace L (Trim c '':-'') = [] \<longrightarrow>
      (\<exists>p w q. c = p @ w @ q \<and> list_all (\<lambda>x. x \<in> set '':-'') p \<and> list_all asciiSpace w \<and>
               list_all (\<lambda>x. x \<in> set '':-'') q)) \<and>
   (isASCII c \<longrightarrow>
      TrimSpace L (Trim c '':-'') =
        rev (dropWhile asciiSpace (rev (dropWhile asciiSpace
          (dropWhile (\<lambda>x. x \<in> set '':-'')
            (rev (dropWhile (\<lambda>x. x \<in> set '':-'') (rev c)))))))) \<and>
   map upper_byte ''abcdefghijklmnopqrstuvwxyz'' = ''ABCDEFGHIJKLMNOPQRSTUVWXYZ'' \<and>
   (\<forall>x. x \<notin> set ''abcdefghijklmnopqrstuvwxyz'' \<longrightarrow> upper_byte x = x) \<and>
   (\<forall>x. asciiSpace x \<longleftrightarrow>
        x \<in> set [CHR 0x09, CHR 0x0A, CHR 0x0B, CHR 0x0C, CHR 0x0D, CHR 0x20]) \<and>
   extractSection L ''Lunch: a LUNCH: b'' ''lUNCH'' = Inr ''a LUNCH: b'' \<and>
   extractSection L ''LUNCH:-- '' ''LUNCH'' = Inr no_information \<and>
   extractSection L ''LUNCH: - '' ''LUNCH'' = Inr ''-'' \<and>
   extractSection L ''LUNCH : '' ''LUNCH'' = Inr '':'' \<and>
   extractSection L ''LUNCH - salad'' ''LUNCH'' = Inr ''- salad'' \<and>
   no_information = ''No information available.''"
proof -
  have empty: "extractSection L [] kw = Inr no_information"
    by (simp add: extractSection_def)
  have absent: "(\<forall>j. \<not> HasPrefix (drop j (ToUpper L s)) (ToUpper L kw)) \<longrightarrow>
      extractSection L s kw = Inr no_information"
    by (simp add: extractSection_def Let_def Index_absent)
  have folding: "isASCII s \<and> isASCII kw \<longrightarrow>
      (HasPrefix (drop j (ToUpper L s)) (ToUpper L kw) \<longleftrightarrow>
       map upper_byte (take (length kw) (drop j s)) = map upper_byte kw)"
    using ToUpper_ascii_occurrence [of s kw j L] by blast
  have present: "isASCII s \<and> isASCII kw \<and> s \<noteq> [] \<and>
    map upper_byte (take (length kw) (drop i s)) = map upper_byte kw \<and>
    (\<forall>j<i. map upper_byte (take (length kw) (drop j s)) \<noteq> map upper_byte kw) \<longrightarrow>
      (\<exists>c. stop_at_next L (map upper_byte kw) section_headers (drop (i + length kw) s) = Inr c \<and>
           extractSection L s kw =
             (if TrimSpace L (Trim c '':-'') = [] then Inr no_information
              else Inr (TrimSpace L (Trim c '':-''))))"
    using extractSection_ascii_first [of s kw i L] by blast
  have sandwich: "list_all (\<lambda>x. x \<in> set '':-'') p \<and> list_all asciiSpace w \<and>
    list_all (\<lambda>x. x \<in> set '':-'') q \<longrightarrow>
      Trim (p @ w @ q) '':-'' = w \<and> TrimSpace L (Trim (p @ w @ q) '':-'') = []"
  proof
    assume a: "list_all (\<lambda>x. x \<in> set '':-'') p \<and> list_all asciiSpace w \<and>
      list_all (\<lambda>x. x \<in> set '':-'') q"
    then have t: "Trim (p @ w @ q) '':-'' = w"
      by (intro Trim_sandwich) (elim conjE, assumption)+
    from a have "TrimSpace L w = []"
      by (intro TrimSpace_spaces) (elim conjE, assumption)
    with t show "Trim (p @ w @ q) '':-'' = w \<and> TrimSpace L (Trim (p @ w @ q) '':-'') = []"
      by (simp only: simp_thms)
  qed
  have only: "isASCII c \<and> TrimSpace L (Trim c '':-'') = [] \<longrightarrow>
      (\<exists>p w q. c = p @ w @ q \<and> list_all (\<lambda>x. x \<in> set '':-'') p \<and> list_all asciiSpace w \<and>
               list_all (\<lambda>x. x \<in> set '':-'') q)"
    using clean_empty_iff_ascii [of c L] by blast
  have explicit: "isASCII c \<longrightarrow>
      TrimSpace L (Trim c '':-'') =
        rev (dropWhile asciiSpace (rev (dropWhile asciiSpace
          (dropWhile (\<lambda>x. x \<in> set '':-'')
            (rev (dropWhile (\<lambda>x. x \<in> set '':-'') (rev c)))))))"
  proof
    assume "isASCII c"
    then have "isASCII (Trim c '':-'')"
      by (rule isASCII_Trim)
    then have "TrimSpace L (Trim c '':-'') =
        rev (dropWhile asciiSpace (rev (dropWhile asciiSpace (Trim c '':-''))))"
      by (rule TrimSpace_ascii)
    then show "TrimSpace L (Trim c '':-'') =
        rev (dropWhile asciiSpace (rev (dropWhile asciiSpace
          (dropWhile (\<lambda>x. x \<in> set '':-'')
            (rev (dropWhile (\<lambda>x. x \<in> set '':-'') (rev c)))))))"
      by (simp only: Trim_cutset)
  qed
  have e1: "extractSection L ''Lunch: a LUNCH: b'' ''lUNCH'' = Inr ''a LUNCH: b''"
    by code_simp
  have e2: "extractSection L ''LUNCH:-- '' ''LUNCH'' = Inr no_information"
    by code_simp
  have e3: "extractSection L ''LUNCH: - '' ''LUNCH'' = Inr ''-''"
    by code_simp
  have e4: "extractSection L ''LUNCH : '' ''LUNCH'' = Inr '':''"
    by code_simp
  have e5: "extractSection L ''LUNCH - salad'' ''LUNCH'' = Inr ''- salad''"
    by code_simp
  have sentinel: "no_information = ''No information available.''"
    by (simp add: no_information_def)
  show ?thesis
    by (intro conjI empty absent folding present sandwich only explicit upper_byte_alphabet
        upper_byte_other asciiSpace_chars e1 e2 e3 e4 e5 sentinel)
qed

theorem extractSection_first_occurrence_witness:
  "isASCII meal_example \<and> isASCII ''lunch'' \<and>
   extractSection sample_stdlib meal_example ''lunch'' = Inr ''salad'' \<and>
   extractSection sample_stdlib meal_example ''snacks'' = Inr no_information \<and>
   TrimSpace sample_stdlib (Trim ('':'' @ '' '' @ ''--'') '':-'') = []"
proof -
  let ?L = sample_stdlib
  note inst = extractSection_first_occurrence [where L = ?L and kw = "''lunch''"
      and s = meal_example and j = 0 and i = 17 and p = "'':''" and w = "'' ''" and q = "''--''"
      and c = "[]"]
  note inst2 = extractSection_first_occurrence [where L = ?L and kw = "''snacks''"
      and s = meal_example and j = 0 and i = 0 and p = "[]" and w = "[]" and q = "[]"
      and c = "[]"]
  have as: "isASCII meal_example" and ak: "isASCII ''lunch''"
    by code_simp+
  have ne: "meal_example \<noteq> []"
    by (simp add: meal_example_def)
  have idx: "Index (ToUpper ?L meal_example) (ToUpper ?L ''lunch'') = 17"
    by code_simp
  then have found: "Index (ToUpper ?L meal_example) (ToUpper ?L ''lunch'') \<noteq> - 1"
    by simp
  from Index_found(3,4) [OF found] idx
  have occ: "HasPrefix (drop 17 (ToUpper ?L meal_example)) (ToUpper ?L ''lunch'')"
    and least: "\<forall>j<17. \<not> HasPrefix (drop j (ToUpper ?L meal_example)) (ToUpper ?L ''lunch'')"
    by simp_all
  have occ': "map upper_byte (take (length ''lunch'') (drop 17 meal_example)) =
      map upper_byte ''lunch''"
    using occ by (simp only: ToUpper_ascii_occurrence [OF as ak])
  have least': "\<forall>j<17. map upper_byte (take (length ''lunch'') (drop j meal_example)) \<noteq>
      map upper_byte ''lunch''"
    using least by (simp only: ToUpper_ascii_occurrence [OF as ak])
  note present = inst [THEN conjunct2, THEN conjunct2, THEN conjunct2, THEN conjunct1]
  from present as ak ne occ' least' obtain c where
    stop: "stop_at_next ?L (map upper_byte ''lunch'') section_headers
        (drop (17 + length ''lunch'') meal_example) = Inr c"
    and res: "extractSection ?L meal_example ''lunch'' =
        (if TrimSpace ?L (Trim c '':-'') = [] then Inr no_information
         else Inr (TrimSpace ?L (Trim c '':-'')))"
    by blast
  have "stop_at_next ?L (map upper_byte ''lunch'') section_headers
        (drop (17 + length ''lunch'') meal_example) = Inr '': salad\<newline>\<newline>''"
    by code_simp
  with stop have c: "c = '': salad\<newline>\<newline>''"
    by simp
  have clean: "TrimSpace ?L (Trim '': salad\<newline>\<newline>'' '':-'') = ''salad''"
    by code_simp
  from res have 1: "extractSection ?L meal_example ''lunch'' = Inr ''salad''"
    unfolding c clean by simp
  have "Index (ToUpper ?L meal_example) (ToUpper ?L ''snacks'') = - 1"
    by code_simp
  with Index_absent [of "ToUpper ?L meal_example" "ToUpper ?L ''snacks''"]
  have none: "\<forall>j. \<not> HasPrefix (drop j (ToUpper ?L meal_example)) (ToUpper ?L ''snacks'')"
    by blast
  note absent = inst2 [THEN conjunct2, THEN conjunct1]
  from absent none have 2: "extractSection ?L meal_example ''snacks'' = Inr no_information"
    by blast
  have lists: "list_all (\<lambda>x. x \<in> set '':-'') '':''" "list_all asciiSpace '' ''"
    "list_all (\<lambda>x. x \<in> set '':-'') ''--''"
    by code_simp+
  note sandwich = inst [THEN conjunct2, THEN conjunct2, THEN conjunct2, THEN conjunct2,
      THEN conjunct1]
  from sandwich lists have 3: "TrimSpace ?L (Trim ('':'' @ '' '' @ ''--'') '':-'') = []"
    by blast
  from as ak 1 2 3 show ?thesis
    by (intro conjI)
qed

text \<open>
  C7. On the text \<open>"BREAKFAST: oats\n\nLUNCH: salad\n\nDINNER: soup"\<close> the extractor
  returns \<open>"oats"\<close> for BREAKFAST, \<open>"salad"\<close> for LUNCH (cut before DINNER), \<open>"soup"\<close> for
  DINNER and the sentinel \<open>"No information available."\<close> for SNACKS, whatever the library's
  Unicode tables are; \<open>parseMealSections\<close> puts the four results under its four keys.
\<close>

theorem extractSection_meal_example:
  "extractSection L meal_example ''BREAKFAST'' = Inr ''oats'' \<and>
   extractSection L meal_example ''LUNCH'' = Inr ''salad'' \<and>
   extractSection L meal_example ''DINNER'' = Inr ''soup'' \<and>
   extractSection L meal_example ''SNACKS'' = Inr ''No information available.'' \<and>
   parseMealSections L meal_example =
     Inr [''breakfast'' \<mapsto> ''oats'', ''lunch'' \<mapsto> ''salad'', ''dinner'' \<mapsto> ''soup'',
          ''snacks'' \<mapsto> ''No information available.'']"
proof -
  have b: "extractSection L meal_example ''BREAKFAST'' = Inr ''oats''"
    by code_simp
  have l: "extractSection L meal_example ''LUNCH'' = Inr ''salad''"
    by code_simp
  have d: "extractSection L meal_example ''DINNER'' = Inr ''soup''"
    by code_simp
  have s: "extractSection L meal_example ''SNACKS'' = Inr ''No information available.''"
    by code_simp
  have "parseMealSections L meal_example =
     Inr [''breakfast'' \<mapsto> ''oats'', ''lunch'' \<mapsto> ''salad'', ''dinner'' \<mapsto> ''soup'',
          ''snacks'' \<mapsto> ''No information available.'']"
    unfolding parseMealSections_def b l d s by simp
  with b l d s show ?thesis
    by blast
qed

text \<open>
  C8. The claim: a flow fails exactly when the backend call fails, with the error wrapped
  under its category and no second call, and after a successful call no step fails,
  whatever the text. The first part holds (\<open>flows_return_backend_error\<close>,
  \<open>flows_call_backend_once\<close>, \<open>flows_fail_iff_backend_fails\<close>). The second fails in the
  meal planner: \<open>extractSection\<close> finds the label in the upper-cased text and slices the
  original text at that offset, and the two differ in length when upper-casing changes
  the length of a character. On the reply
  \<open>turned_a_text\<close>, with a library that upper-cases U+0250 to U+2C6F as Unicode does, the
  label LUNCH is found at offset 3 of the upper-cased text, and \<open>text[8:]\<close> on the seven
  bytes of the reply panics.
\<close>

theorem mealPlanFlow_panics:
  assumes "MapToUpper L turned_a_text = turned_a_upper"
    and "generate w (mealPlanPrompt L input) = (Inr turned_a_text, w')"
  shows "mealPlanFlow L generate w input = (Inl SliceBoundsOutOfRange, w')"
  using assms(2) extractSection_turned_a [OF assms(1)]
  by (simp add: mealPlanFlow_def parseMealSections_def)

theorem mealPlanFlow_panics_witness:
  "mealPlanFlow turned_a_stdlib (sample_backend turned_a_text) 0
     \<lparr>DietType = ''vegetarian'', Allergies = ''none'', CalorieLimit = Finite 1800\<rparr> =
   (Inl SliceBoundsOutOfRange, 1)"
proof -
  let ?input = "\<lparr>DietType = ''vegetarian'', Allergies = ''none'', CalorieLimit = Finite 1800\<rparr>"
  have up: "MapToUpper turned_a_stdlib turned_a_text = turned_a_upper"
    by (simp add: turned_a_stdlib_def)
  have call: "sample_backend turned_a_text 0 (mealPlanPrompt turned_a_stdlib ?input) =
      (Inr turned_a_text, 1)"
    by (simp add: sample_backend_def)
  from mealPlanFlow_panics [of turned_a_stdlib "sample_backend turned_a_text" 0 ?input 1] up call
  show ?thesis
    by simp
qed

text \<open>
  C9. The claim: for every text and label the extractor returns the sentinel or a
  non-empty trimmed content. No call returns the empty string
  (\<open>extractSection_result_nonempty\<close>), but a call need not return: on the text
  \<open>turned_a_text\<close> and the label LUNCH, with a library that upper-cases U+0250 to U+2C6F as
  Unicode does, the label is found at offset 3 of the eight upper-cased bytes and
  \<open>text[8:]\<close> on the seven bytes of the text panics. This is the defect of C8.
\<close>

theorem extractSection_panics_on_longer_upper_case:
  assumes "MapToUpper L turned_a_text = turned_a_upper"
  shows "ToUpper L turned_a_text = turned_a_upper \<and>
         Index turned_a_upper (ToUpper L ''LUNCH'') = 3 \<and>
         length turned_a_text = 7 \<and>
         slice_from turned_a_text (3 + int (length (ToUpper L ''LUNCH''))) =
           Inl SliceBoundsOutOfRange \<and>
         extractSection L turned_a_text ''LUNCH'' = Inl SliceBoundsOutOfRange"
proof -
  have na: "\<not> isASCII turned_a_text"
    by code_simp
  have up: "ToUpper L turned_a_text = turned_a_upper"
    using na assms by (simp add: ToUpper_def)
  have il: "Index turned_a_upper (ToUpper L ''LUNCH'') = 3"
    by code_simp
  have len: "length turned_a_text = 7"
    by code_simp
  have sl: "slice_from turned_a_text (3 + int (length (ToUpper L ''LUNCH''))) =
      Inl SliceBoundsOutOfRange"
    by code_simp
  from up il len sl extractSection_turned_a(2) [OF assms] show ?thesis
    by (intro conjI)
qed

theorem extractSection_panics_on_longer_upper_case_witness:
  "extractSection turned_a_stdlib turned_a_text ''LUNCH'' = Inl SliceBoundsOutOfRange"
proof -
  have "MapToUpper turned_a_stdlib turned_a_text = turned_a_upper"
    by (simp add: turned_a_stdlib_def)
  from extractSection_panics_on_longer_upper_case [OF this] show ?thesis
    by (elim conjE)
qed

text \<open>
  C10. When the backend returns text, the medication flow returns that text unchanged
  as \<open>Information\<close>, and \<open>Reminder\<close> and \<open>Disclaimer\<close> are two constants, the same for
  every request and every text.
\<close>

theorem medication_fields:
  "generate w (medicationPrompt input) = (Inr s, w') \<Longrightarrow>
   medicationFlow generate w input =
     (Inr (Inr \<lparr>Information = s, Reminder = medication_reminder,
                Disclaimer = medication_disclaimer\<rparr>), w')"
  by (simp add: medicationFlow_def)

theorem medication_fields_witness:
  "medicationFlow (sample_backend ''Take with food.'') 0
      \<lparr>MedicationName = ''metformin'', Purpose = ''timing''\<rparr> =
     (Inr (Inr \<lparr>Information = ''Take with food.'', Reminder = medication_reminder,
                Disclaimer = medication_disclaimer\<rparr>), 1)"
proof -
  have call: "sample_backend ''Take with food.'' 0
      (medicationPrompt \<lparr>MedicationName = ''metformin'', Purpose = ''timing''\<rparr>) =
      (Inr ''Take with food.'', 1)"
    by (simp add: sample_backend_def)
  from medication_fields [of "sample_backend ''Take with food.''" 0
      "\<lparr>MedicationName = ''metformin'', Purpose = ''timing''\<rparr>" "''Take with food.''" 1] call
  show ?thesis
    by simp
qed

end
